theory Spec2Isabelle
  imports Main "HOL-Library.Sublist" "HOL-Library.AList"
begin

section \<open>JavaScript strings and values\<close>

text \<open>
  Strings are texts in UTF-8, a list of bytes. \<open>str_includes\<close> is
  \<^verbatim>\<open>String.prototype.includes\<close> and \<open>trim\<close> is \<^verbatim>\<open>String.prototype.trim\<close>, which removes the
  white space and line terminator characters of ECMAScript from both ends: U+0009 to
  U+000D, U+0020, U+00A0, U+1680, U+2000 to U+200A, U+2028, U+2029, U+202F, U+205F, U+3000
  and U+FEFF, here by their encodings. \<open>truthy\<close> is the coercion of a string to a boolean
  (the empty string is falsy).
\<close>

fun str_includes :: "string \<Rightarrow> string \<Rightarrow> bool" where
  "str_includes [] t = (t = [])"
| "str_includes (c # cs) t = (prefix t (c # cs) \<or> str_includes cs t)"

definition white_space :: "string list" where
  "white_space =
     [[CHR 0x09], [CHR 0x0A], [CHR 0x0B], [CHR 0x0C], [CHR 0x0D], [CHR 0x20],
      [CHR 0xC2, CHR 0xA0], [CHR 0xE1, CHR 0x9A, CHR 0x80],
      [CHR 0xE2, CHR 0x80, CHR 0x80], [CHR 0xE2, CHR 0x80, CHR 0x81],
      [CHR 0xE2, CHR 0x80, CHR 0x82], [CHR 0xE2, CHR 0x80, CHR 0x83],
      [CHR 0xE2, CHR 0x80, CHR 0x84], [CHR 0xE2, CHR 0x80, CHR 0x85],
      [CHR 0xE2, CHR 0x80, CHR 0x86], [CHR 0xE2, CHR 0x80, CHR 0x87],
      [CHR 0xE2, CHR 0x80, CHR 0x88], [CHR 0xE2, CHR 0x80, CHR 0x89],
      [CHR 0xE2, CHR 0x80, CHR 0x8A], [CHR 0xE2, CHR 0x80, CHR 0xA8],
      [CHR 0xE2, CHR 0x80, CHR 0xA9], [CHR 0xE2, CHR 0x80, CHR 0xAF],
      [CHR 0xE2, CHR 0x81, CHR 0x9F], [CHR 0xE3, CHR 0x80, CHR 0x80],
      [CHR 0xEF, CHR 0xBB, CHR 0xBF]]"

text \<open>Removing from the front of a string every leading occurrence of one of the texts \<open>ps\<close>.\<close>

fun strip :: "string list \<Rightarrow> string \<Rightarrow> string" where
  "strip ps [] = []"
| "strip ps (c # cs) =
     (case find (\<lambda>p. prefix p (c # cs)) ps of
        None \<Rightarrow> c # cs
      | Some p \<Rightarrow> strip ps (drop (length p - 1) cs))"

definition trim :: "string \<Rightarrow> string" where
  "trim s = rev (strip (map rev white_space) (rev (strip white_space s)))"

definition truthy :: "string \<Rightarrow> bool" where
  "truthy s = (s \<noteq> [])"

text \<open>\<^verbatim>\<open>a || b\<close> on an optional request field: an absent or empty field takes the default.\<close>

definition or_default :: "string option \<Rightarrow> string \<Rightarrow> string" where
  "or_default v d = (case v of None \<Rightarrow> d | Some s \<Rightarrow> if truthy s then s else d)"

section \<open>Command results and the transport\<close>

text \<open>
  The result of \<^verbatim>\<open>ssh.execCommand\<close>: the two output texts and the exit code, which is
  \<^verbatim>\<open>null\<close> when the remote process ended on a signal. A promise that settles is a sum:
  \<open>Inl\<close> carries the message of the error it rejects with, \<open>Inr\<close> the value it resolves to.
\<close>

record command_result =
  stdout :: string
  stderr :: string
  code :: "int option"

type_synonym 'a promise = "string + 'a"

text \<open>
  The remote host and the SSH library are outside the repository. They are a parameter:
  a state \<open>'w\<close> and a function that, for a command text and a working directory, settles
  the call and moves the state.
\<close>

type_synonym 'w exec = "string \<Rightarrow> string option \<Rightarrow> 'w \<Rightarrow> command_result promise \<times> 'w"

section \<open>Progress events and the response stream\<close>

datatype progress_event =
    Connected string
  | Info string
  | Step nat string
  | Stdout string
  | Stderr string
  | Success string
  | Error string
  | Done string

fun is_terminal :: "progress_event \<Rightarrow> bool" where
  "is_terminal (Success _) = True"
| "is_terminal (Error _) = True"
| "is_terminal (Done _) = True"
| "is_terminal _ = False"

text \<open>
  One request being served: the remote state, the commands handed to the transport so far
  with the way each settled (a log kept for the proofs), the events written to the
  response in order, and whether the response has been ended.
\<close>

record 'w run =
  remote :: 'w
  history :: "(string \<times> command_result promise) list"
  sink :: "progress_event list"
  ended :: bool

definition fresh :: "'w \<Rightarrow> 'w run" where
  "fresh w = \<lparr>remote = w, history = [], sink = [], ended = False\<rparr>"

definition res_write :: "progress_event \<Rightarrow> 'w run \<Rightarrow> 'w run" where
  "res_write e st = st\<lparr>sink := sink st @ [e]\<rparr>"

definition res_end :: "'w run \<Rightarrow> 'w run" where
  "res_end st = st\<lparr>ended := True\<rparr>"

section \<open>SSHService: running commands\<close>

definition execCommand :: "'w exec \<Rightarrow> string \<Rightarrow> string option \<Rightarrow> 'w run
    \<Rightarrow> command_result promise \<times> 'w run" where
  "execCommand x command cwd st =
     (case x command cwd (remote st) of
        (r, w) \<Rightarrow> (r, st\<lparr>remote := w, history := history st @ [(command, r)]\<rparr>))"

text \<open>\<^verbatim>\<open>executeCommand\<close> resolves with the library's result and rejects with its error.\<close>

definition executeCommand :: "'w exec \<Rightarrow> string \<Rightarrow> string option \<Rightarrow> 'w run
    \<Rightarrow> command_result promise \<times> 'w run" where
  "executeCommand x command cwd st =
     (case execCommand x command cwd st of
        (Inr result, st1) \<Rightarrow>
          (Inr \<lparr>stdout = stdout result, stderr = stderr result, code = code result\<rparr>, st1)
      | (Inl error, st1) \<Rightarrow> (Inl error, st1))"

text \<open>
  \<^verbatim>\<open>executeCommandWithStream\<close>: a callback is an optional action on the request's state
  (\<^verbatim>\<open>null\<close> is \<open>None\<close>); \<^verbatim>\<open>onStdout && result.stdout\<close> holds when the callback is given
  and the text is not empty. It resolves with the exit code alone.
\<close>

type_synonym 'w callback = "(string \<Rightarrow> 'w run \<Rightarrow> 'w run) option"

definition call_if :: "'w callback \<Rightarrow> string \<Rightarrow> 'w run \<Rightarrow> 'w run" where
  "call_if cb text st =
     (case cb of
        None \<Rightarrow> st
      | Some f \<Rightarrow> if truthy text then f text st else st)"

definition executeCommandWithStream :: "'w exec \<Rightarrow> string \<Rightarrow> string option
    \<Rightarrow> 'w callback \<Rightarrow> 'w callback \<Rightarrow> 'w run \<Rightarrow> int option promise \<times> 'w run" where
  "executeCommandWithStream x command cwd onStdout onStderr st =
     (case execCommand x command cwd st of
        (Inr result, st1) \<Rightarrow>
          (let st2 = call_if onStdout (stdout result) st1;
               st3 = call_if onStderr (stderr result) st2
           in (Inr (code result), st3))
      | (Inl error, st1) \<Rightarrow> (Inl error, st1))"

text \<open>The two callbacks every streaming handler of the server passes.\<close>

definition write_stdout :: "'w callback" where
  "write_stdout = Some (\<lambda>chunk. res_write (Stdout chunk))"

definition write_stderr :: "'w callback" where
  "write_stderr = Some (\<lambda>chunk. res_write (Stderr chunk))"

section \<open>The archive source: URLs and command texts\<close>

definition getBranchArchiveUrl :: "string \<Rightarrow> string \<Rightarrow> string \<Rightarrow> string" where
  "getBranchArchiveUrl owner repo branch =
     ''https://github.com/'' @ owner @ ''/'' @ repo @ ''/archive/refs/heads/'' @ branch @ ''.tar.gz''"

definition generateCurlCommand :: "string \<Rightarrow> string \<Rightarrow> string" where
  \<open>generateCurlCommand url outputPath = ''curl -L "'' @ url @ ''" -o "'' @ outputPath @ ''"''\<close>

definition generateWgetCommand :: "string \<Rightarrow> string \<Rightarrow> string" where
  \<open>generateWgetCommand url outputPath = ''wget -O "'' @ outputPath @ ''" "'' @ url @ ''"''\<close>

definition generateDownloadCommand :: "string \<Rightarrow> string \<Rightarrow> string \<Rightarrow> string" where
  "generateDownloadCommand url outputPath tool =
     (if tool = ''curl'' then generateCurlCommand url outputPath
      else if tool = ''wget'' then generateWgetCommand url outputPath
      else generateWgetCommand url outputPath)"

definition generateExtractCommand :: "string \<Rightarrow> string \<Rightarrow> string" where
  \<open>generateExtractCommand archivePath extractTo =
     ''tar -xzf "'' @ archivePath @ ''" -C "'' @ extractTo @ ''"''\<close>

definition generateMkdirCommand :: "string \<Rightarrow> string" where
  \<open>generateMkdirCommand dirPath = ''mkdir -p "'' @ dirPath @ ''"''\<close>

record repo_config =
  cfg_owner :: string
  cfg_repo :: string
  cfg_branch :: string
  cfg_basePath :: string

definition getDefaultRepoConfig :: repo_config where
  "getDefaultRepoConfig =
     \<lparr>cfg_owner = ''rahul-keus'', cfg_repo = ''media-hub-setup'', cfg_branch = ''main'',
      cfg_basePath = ''/data/hub-setup''\<rparr>"

definition test_f :: "string \<Rightarrow> string" where
  \<open>test_f path = ''test -f "'' @ path @ ''" && echo "exists"''\<close>

section \<open>The server's handlers\<close>

text \<open>
  \<^verbatim>\<open>detectDownloadTool\<close>: each probe's rejection is caught and replaced by \<^verbatim>\<open>null\<close>; a
  tool counts as present when its probe resolved with exit code 0 and printed something
  besides white space.
\<close>

definition tool_present :: "command_result promise \<Rightarrow> bool" where
  "tool_present check =
     (case check of
        Inl _ \<Rightarrow> False
      | Inr r \<Rightarrow> code r = Some 0 \<and> truthy (trim (stdout r)))"

definition detectDownloadTool :: "'w exec \<Rightarrow> 'w run \<Rightarrow> string option \<times> 'w run" where
  "detectDownloadTool x st =
     (case executeCommand x ''which curl'' None st of
        (curlCheck, st1) \<Rightarrow>
          if tool_present curlCheck then (Some ''curl'', st1)
          else (case executeCommand x ''which wget'' None st1 of
                  (wgetCheck, st2) \<Rightarrow>
                    if tool_present wgetCheck then (Some ''wget'', st2)
                    else (None, st2)))"

text \<open>
  A \<^verbatim>\<open>test -f\<close> probe whose rejection is replaced by an object with an empty
  \<^verbatim>\<open>stdout\<close>; the file counts as present when the output includes \<^verbatim>\<open>exists\<close>.
\<close>

definition reports_exists :: "command_result promise \<Rightarrow> bool" where
  "reports_exists check =
     str_includes (case check of Inl _ \<Rightarrow> [] | Inr r \<Rightarrow> stdout r) ''exists''"

subsection \<open>POST /api/ssh/execute-stream, from the first write to the end of the response\<close>

definition execute_stream :: "'w exec \<Rightarrow> string \<Rightarrow> string option \<Rightarrow> 'w run \<Rightarrow> 'w run" where
  "execute_stream x command cwd st =
     (let st1 = res_write (Connected ''Connected to hub'') st;
          st2 = (case executeCommandWithStream x command cwd write_stdout write_stderr st1 of
                   (Inr _, s) \<Rightarrow> res_write (Done ''Command completed'') s
                 | (Inl error, s) \<Rightarrow> res_write (Error error) s)
      in res_end st2)"

subsection \<open>POST /api/setup/download-and-run, from the first write to the end of the response\<close>

record setup_request =
  owner :: "string option"
  repo :: "string option"
  branch :: "string option"
  basePath :: "string option"

definition installCmd :: "string \<Rightarrow> string" where
  \<open>installCmd extractedDir = ''cd "'' @ extractedDir @ ''" && npm install''\<close>

definition runCmd :: "string \<Rightarrow> string" where
  \<open>runCmd extractedDir = ''cd "'' @ extractedDir @ ''" && node hub-setup.js''\<close>

text \<open>Step 5 and the end of the \<^verbatim>\<open>try\<close> block.\<close>

definition step5 :: "'w exec \<Rightarrow> string \<Rightarrow> 'w run \<Rightarrow> unit promise \<times> 'w run" where
  \<open>step5 x extractedDir st =
     (let st1 = res_write (Step 5 ''Running hub-setup.js...'') st
      in case executeCommandWithStream x (runCmd extractedDir) None write_stdout write_stderr st1 of
           (Inl error, st2) \<Rightarrow> (Inl error, st2)
         | (Inr _, st2) \<Rightarrow>
             (Inr (), res_end (res_write (Success ''Setup completed successfully!'') st2)))\<close>

definition step4 :: "'w exec \<Rightarrow> string \<Rightarrow> 'w run \<Rightarrow> unit promise \<times> 'w run" where
  \<open>step4 x extractedDir st =
     (let st1 = res_write (Step 4 ''Installing dependencies...'') st
      in case executeCommand x (test_f (extractedDir @ ''/package.json'')) None st1 of
           (packageJsonCheck, st2) \<Rightarrow>
             if reports_exists packageJsonCheck then
               (let st3 = res_write (Info ''Found package.json, installing dependencies...'') st2
                in case executeCommandWithStream x (installCmd extractedDir) None
                          write_stdout write_stderr st3 of
                     (Inl error, st4) \<Rightarrow> (Inl error, st4)
                   | (Inr _, st4) \<Rightarrow>
                       step5 x extractedDir
                         (res_write (Info ''Dependencies installed successfully'') st4))
             else
               step5 x extractedDir
                 (res_write (Info ''No package.json found, skipping dependency installation'') st2))\<close>

definition step3 :: "'w exec \<Rightarrow> string \<Rightarrow> string \<Rightarrow> string \<Rightarrow> string \<Rightarrow> 'w run
    \<Rightarrow> unit promise \<times> 'w run" where
  "step3 x archivePath hubBasePath repoName repoBranch st =
     (let st1 = res_write (Step 3 ''Extracting archive...'') st;
          extractCmd = generateExtractCommand archivePath hubBasePath
      in case executeCommandWithStream x extractCmd None write_stdout write_stderr st1 of
           (Inl error, st2) \<Rightarrow> (Inl error, st2)
         | (Inr _, st2) \<Rightarrow>
             step4 x (hubBasePath @ ''/'' @ repoName @ ''-'' @ repoBranch) st2)"

text \<open>Step 2 once a tool is found: the download, then the check that the archive is there.\<close>

definition step2_download :: "'w exec \<Rightarrow> string \<Rightarrow> string \<Rightarrow> string \<Rightarrow> string \<Rightarrow> string
    \<Rightarrow> 'w run \<Rightarrow> unit promise \<times> 'w run" where
  "step2_download x downloadTool repoOwner repoName repoBranch hubBasePath st =
     (let st1 = res_write (Info (''Using '' @ downloadTool @ '' for download...'')) st;
          st2 = res_write (Step 2 ''Downloading repository...'') st1;
          archiveUrl = getBranchArchiveUrl repoOwner repoName repoBranch;
          archivePath = hubBasePath @ ''/repo.tar.gz'';
          downloadCmd = generateDownloadCommand archiveUrl archivePath downloadTool
      in case executeCommandWithStream x downloadCmd None write_stdout write_stderr st2 of
           (Inl error, st3) \<Rightarrow> (Inl error, st3)
         | (Inr _, st3) \<Rightarrow>
             (case executeCommand x (test_f archivePath) None st3 of
                (fileCheck, st4) \<Rightarrow>
                  if reports_exists fileCheck then
                    step3 x archivePath hubBasePath repoName repoBranch st4
                  else
                    (Inl ''Download failed - archive file not found after download'', st4)))"

definition step2 :: "'w exec \<Rightarrow> string \<Rightarrow> string \<Rightarrow> string \<Rightarrow> string \<Rightarrow> 'w run
    \<Rightarrow> unit promise \<times> 'w run" where
  "step2 x repoOwner repoName repoBranch hubBasePath st =
     (let st1 = res_write (Step 2 ''Checking for download tools...'') st
      in case detectDownloadTool x st1 of
           (None, st2) \<Rightarrow>
             (Inl ''Neither curl nor wget is available on the hub. Please install one of them.'',
              st2)
         | (Some downloadTool, st2) \<Rightarrow>
             step2_download x downloadTool repoOwner repoName repoBranch hubBasePath st2)"

definition step1 :: "'w exec \<Rightarrow> string \<Rightarrow> string \<Rightarrow> string \<Rightarrow> string \<Rightarrow> 'w run
    \<Rightarrow> unit promise \<times> 'w run" where
  "step1 x repoOwner repoName repoBranch hubBasePath st =
     (let st1 = res_write (Step 1 ''Creating directory...'') st
      in case executeCommand x (generateMkdirCommand hubBasePath) None st1 of
           (Inl error, st2) \<Rightarrow> (Inl error, st2)
         | (Inr _, st2) \<Rightarrow> step2 x repoOwner repoName repoBranch hubBasePath st2)"

text \<open>The \<^verbatim>\<open>try\<close> block with its \<^verbatim>\<open>catch\<close>, which writes the error event and ends the response.\<close>

definition repoOwner_of :: "setup_request \<Rightarrow> string" where
  "repoOwner_of body = or_default (owner body) (cfg_owner getDefaultRepoConfig)"

definition repoName_of :: "setup_request \<Rightarrow> string" where
  "repoName_of body = or_default (repo body) (cfg_repo getDefaultRepoConfig)"

definition repoBranch_of :: "setup_request \<Rightarrow> string" where
  "repoBranch_of body = or_default (branch body) (cfg_branch getDefaultRepoConfig)"

definition hubBasePath_of :: "setup_request \<Rightarrow> string" where
  "hubBasePath_of body = or_default (basePath body) (cfg_basePath getDefaultRepoConfig)"

definition download_and_run :: "'w exec \<Rightarrow> setup_request \<Rightarrow> 'w run \<Rightarrow> 'w run" where
  "download_and_run x body st =
     (case step1 x (repoOwner_of body) (repoName_of body) (repoBranch_of body)
             (hubBasePath_of body) st of
        (Inr _, st1) \<Rightarrow> st1
      | (Inl error, st1) \<Rightarrow> res_end (res_write (Error error) st1))"

text \<open>The paths and command texts of a request, as the handler builds them.\<close>

definition archivePath_of :: "setup_request \<Rightarrow> string" where
  "archivePath_of body = hubBasePath_of body @ ''/repo.tar.gz''"

definition extractedDir_of :: "setup_request \<Rightarrow> string" where
  "extractedDir_of body = hubBasePath_of body @ ''/'' @ repoName_of body @ ''-'' @ repoBranch_of body"

definition downloadCmd_of :: "setup_request \<Rightarrow> string \<Rightarrow> string" where
  "downloadCmd_of body tool =
     generateDownloadCommand
       (getBranchArchiveUrl (repoOwner_of body) (repoName_of body) (repoBranch_of body))
       (archivePath_of body) tool"

section \<open>The session registry\<close>

text \<open>
  Objects are references. An \<^verbatim>\<open>SSHService\<close> holds the reference of its current
  \<^verbatim>\<open>NodeSSH\<close> instance and its map from connection keys to instances; a JavaScript
  \<^verbatim>\<open>Map\<close> is an association list in insertion order.
\<close>

type_synonym ref = nat

record ssh_service =
  ssh :: ref
  connections :: "(string \<times> ref) list"

record connect_config =
  host :: string
  username :: string
  password :: string
  readyTimeout :: nat

text \<open>
  The \<^verbatim>\<open>node-ssh\<close> library is outside the repository: a state \<open>'n\<close> of all its
  instances and of the network, and its three calls on an instance. \<open>lib_connect\<close> gives
  \<open>None\<close> when the promise resolves and the error's message when it rejects.
\<close>

record 'n node_ssh =
  lib_connect :: "ref \<Rightarrow> connect_config \<Rightarrow> 'n \<Rightarrow> string option \<times> 'n"
  lib_isConnected :: "ref \<Rightarrow> 'n \<Rightarrow> bool"
  lib_dispose :: "ref \<Rightarrow> 'n \<Rightarrow> 'n"

datatype lib_call = Connect_call ref connect_config | Dispose_call ref | Timeout_call nat

text \<open>
  The server process: the module's map \<^verbatim>\<open>activeConnections\<close>, the heap of
  \<^verbatim>\<open>SSHService\<close> objects, the next unused reference, the library's state, and the calls
  made to the library and to \<^verbatim>\<open>setTimeout\<close> so far (a log kept for the proofs).
\<close>

record 'n server =
  activeConnections :: "(string \<times> ref) list"
  services :: "ref \<Rightarrow> ssh_service"
  next_ref :: ref
  net :: 'n
  calls :: "lib_call list"

datatype connect_error = Failed_to_connect nat string

definition getConnectionKey :: "string \<Rightarrow> string \<Rightarrow> string" where
  "getConnectionKey ip user = ip @ '':'' @ user"

text \<open>\<^verbatim>\<open>new SSHService()\<close>: a new \<^verbatim>\<open>NodeSSH\<close> instance and an empty map.\<close>

definition new_SSHService :: "'n server \<Rightarrow> ref \<times> 'n server" where
  "new_SSHService s =
     (let instance = next_ref s; this = Suc (next_ref s)
      in (this, s\<lparr>services := (services s)(this := \<lparr>ssh = instance, connections = []\<rparr>),
                  next_ref := Suc (Suc (next_ref s))\<rparr>))"

definition getSSHService :: "string \<Rightarrow> string \<Rightarrow> string \<Rightarrow> 'n server \<Rightarrow> ref \<times> 'n server" where
  "getSSHService ip user pw s =
     (let key = ip @ '':'' @ user
      in case map_of (activeConnections s) key of
           None \<Rightarrow>
             (case new_SSHService s of
                (sshService, s1) \<Rightarrow>
                  (sshService,
                   s1\<lparr>activeConnections := AList.update key sshService (activeConnections s1)\<rparr>))
         | Some sshService \<Rightarrow> (sshService, s))"

text \<open>The loop of \<^verbatim>\<open>SSHService.connect\<close>, with its counter as an argument.\<close>

function connect_loop :: "'n node_ssh \<Rightarrow> ref \<Rightarrow> connect_config \<Rightarrow> string \<Rightarrow> nat \<Rightarrow> nat
    \<Rightarrow> 'n server \<Rightarrow> (connect_error + unit) \<times> 'n server" where
  "connect_loop L this config key retries attempts s =
     (if attempts < retries then
        (let instance = ssh (services s this)
         in case lib_connect L instance config (net s) of
              (None, n) \<Rightarrow>
                (Inr (),
                 s\<lparr>net := n, calls := calls s @ [Connect_call instance config],
                   services := (services s)
                     (this := (services s this)
                        \<lparr>connections := AList.update key instance
                                          (connections (services s this))\<rparr>)\<rparr>)
            | (Some message, n) \<Rightarrow>
                (let s1 = s\<lparr>net := n, calls := calls s @ [Connect_call instance config]\<rparr>
                 in if attempts + 1 \<ge> retries
                    then (Inl (Failed_to_connect retries message), s1)
                    else connect_loop L this config key retries (attempts + 1)
                           (s1\<lparr>calls := calls s1 @ [Timeout_call 2000]\<rparr>)))
      else (Inr (), s))"
  by pat_completeness auto
termination
  by (relation "measure (\<lambda>(L, this, config, key, retries, attempts, s). retries - attempts)") auto

declare connect_loop.simps [simp del]

definition connect :: "'n node_ssh \<Rightarrow> ref \<Rightarrow> string \<Rightarrow> string \<Rightarrow> string \<Rightarrow> nat \<Rightarrow> 'n server
    \<Rightarrow> (connect_error + unit) \<times> 'n server" where
  "connect L this ip user pw retries s =
     (let key = getConnectionKey ip user;
          config = \<lparr>host = ip, username = user, password = pw, readyTimeout = 20000\<rparr>
      in case map_of (connections (services s this)) key of
           Some existingSsh \<Rightarrow>
             if lib_isConnected L existingSsh (net s)
             then (Inr (), s\<lparr>services := (services s)
                                (this := (services s this)\<lparr>ssh := existingSsh\<rparr>)\<rparr>)
             else connect_loop L this config key retries 0 s
         | None \<Rightarrow> connect_loop L this config key retries 0 s)"

definition isConnected :: "'n node_ssh \<Rightarrow> ref \<Rightarrow> 'n server \<Rightarrow> bool" where
  "isConnected L this s = lib_isConnected L (ssh (services s this)) (net s)"

definition dispose :: "'n node_ssh \<Rightarrow> ref \<Rightarrow> 'n server \<Rightarrow> 'n server" where
  "dispose L instance s =
     s\<lparr>net := lib_dispose L instance (net s), calls := calls s @ [Dispose_call instance]\<rparr>"

definition disconnect :: "'n node_ssh \<Rightarrow> ref \<Rightarrow> 'n server \<Rightarrow> 'n server" where
  "disconnect L this s =
     (if lib_isConnected L (ssh (services s this)) (net s)
      then dispose L (ssh (services s this)) s else s)"

definition disconnectConnection :: "'n node_ssh \<Rightarrow> ref \<Rightarrow> string \<Rightarrow> string \<Rightarrow> 'n server
    \<Rightarrow> 'n server" where
  "disconnectConnection L this ip user s =
     (let key = getConnectionKey ip user
      in case map_of (connections (services s this)) key of
           None \<Rightarrow> s
         | Some instance \<Rightarrow>
             if lib_isConnected L instance (net s) then
               (let s1 = dispose L instance s
                in s1\<lparr>services := (services s1)
                        (this := (services s1 this)
                           \<lparr>connections := AList.delete key (connections (services s1 this))\<rparr>)\<rparr>)
             else s)"

fun dispose_each :: "'n node_ssh \<Rightarrow> (string \<times> ref) list \<Rightarrow> 'n server \<Rightarrow> 'n server" where
  "dispose_each L [] s = s"
| "dispose_each L ((key, instance) # entries) s =
     dispose_each L entries
       (if lib_isConnected L instance (net s) then dispose L instance s else s)"

definition disconnectAll :: "'n node_ssh \<Rightarrow> ref \<Rightarrow> 'n server \<Rightarrow> 'n server" where
  "disconnectAll L this s =
     (let s1 = dispose_each L (connections (services s this)) s
      in s1\<lparr>services := (services s1)(this := (services s1 this)\<lparr>connections := []\<rparr>)\<rparr>)"

subsection \<open>The handlers that open and close sessions\<close>

datatype response = Json nat string

text \<open>
  POST /api/ssh/connect after the validation of the request: the service of the key, then
  its \<^verbatim>\<open>connect\<close> with the default of three attempts.
\<close>

definition getOrCreate :: "'n node_ssh \<Rightarrow> string \<Rightarrow> string \<Rightarrow> string \<Rightarrow> 'n server
    \<Rightarrow> (connect_error + ref) \<times> 'n server" where
  "getOrCreate L ip user pw s =
     (case getSSHService ip user pw s of
        (sshService, s1) \<Rightarrow>
          (case connect L sshService ip user pw 3 s1 of
             (Inl error, s2) \<Rightarrow> (Inl error, s2)
           | (Inr _, s2) \<Rightarrow> (Inr sshService, s2)))"

text \<open>
  The opening of the execute, download, extract and setup handlers: the service of the
  key, connected only when \<^verbatim>\<open>isConnected()\<close> is false.
\<close>

definition ensure_connected :: "'n node_ssh \<Rightarrow> string \<Rightarrow> string \<Rightarrow> string \<Rightarrow> 'n server
    \<Rightarrow> (connect_error + ref) \<times> 'n server" where
  "ensure_connected L ip user pw s =
     (case getSSHService ip user pw s of
        (sshService, s1) \<Rightarrow>
          if \<not> isConnected L sshService s1 then
            (case connect L sshService ip user pw 3 s1 of
               (Inl error, s2) \<Rightarrow> (Inl error, s2)
             | (Inr _, s2) \<Rightarrow> (Inr sshService, s2))
          else (Inr sshService, s1))"

text \<open>
  POST /api/ssh/disconnect. A field of the request is absent or a string, and the request
  is refused unless both are given and not empty.
\<close>

definition api_disconnect :: "'n node_ssh \<Rightarrow> string option \<Rightarrow> string option \<Rightarrow> 'n server
    \<Rightarrow> response \<times> 'n server" where
  "api_disconnect L ip_field user_field s =
     (case (ip_field, user_field) of
        (Some ip, Some user) \<Rightarrow>
          if truthy ip \<and> truthy user then
            (let key = ip @ '':'' @ user;
                 s2 = (case map_of (activeConnections s) key of
                         Some sshService \<Rightarrow>
                           (let s1 = disconnect L sshService s
                            in s1\<lparr>activeConnections := AList.delete key (activeConnections s1)\<rparr>)
                       | None \<Rightarrow> s)
             in (Json 200 ''Disconnected successfully'', s2))
          else (Json 400 ''IP and username are required'', s)
      | _ \<Rightarrow> (Json 400 ''IP and username are required'', s))"

subsection \<open>A library for the examples\<close>

text \<open>
  Its state is the list of the connected instances: every \<^verbatim>\<open>connect\<close> resolves, and
  \<^verbatim>\<open>dispose\<close> closes the instance. \<open>connected_server\<close> is the server after one request
  to connect to the hub.
\<close>

definition reliable :: "ref list node_ssh" where
  "reliable =
     \<lparr>lib_connect = (\<lambda>instance config n. (None, instance # n)),
      lib_isConnected = (\<lambda>instance n. instance \<in> set n),
      lib_dispose = (\<lambda>instance n. removeAll instance n)\<rparr>"

definition empty_server :: "ref list server" where
  "empty_server =
     \<lparr>activeConnections = [], services = (\<lambda>_. \<lparr>ssh = 0, connections = []\<rparr>), next_ref = 0,
      net = [], calls = []\<rparr>"

definition connected_server :: "ref list server" where
  "connected_server = snd (getOrCreate reliable ''10.1.4.215'' ''root'' ''keus123'' empty_server)"

section \<open>The provisioning scripts\<close>

text \<open>
  A value a guarded operation returns: \<^verbatim>\<open>undefined\<close>, a boolean or a string. What a script
  does besides its calls to the hub is a journal: each call of the guarded operation and of
  the reconnect check, each line of the console, each delay.
\<close>

datatype js_value = Undefined | Bool bool | Str string

datatype script_event =
    Op_called
  | Attempt_failed nat string
  | Max_retries_reached
  | Hook_called
  | Connection_lost
  | Retrying
  | Slept nat
  | Connecting
  | Connected_ok

record 'w script =
  hub :: 'w
  journal :: "script_event list"

definition journal_add :: "script_event \<Rightarrow> 'w script \<Rightarrow> 'w script" where
  "journal_add e st = st\<lparr>journal := journal st @ [e]\<rparr>"

text \<open>
  The script that provisions the hub from a workstation holds one \<^verbatim>\<open>NodeSSH\<close> instance;
  its three calls are a parameter, on a state \<open>'w\<close> of the instance and the network.
\<close>

record 'w remote_lib =
  ssh_connect :: "'w \<Rightarrow> string option \<times> 'w"
  ssh_isConnected :: "'w \<Rightarrow> bool"
  ssh_execCommand :: "'w exec"

definition RETRY_LIMIT :: nat where
  "RETRY_LIMIT = 5"

definition RETRY_DELAY_MS :: nat where
  "RETRY_DELAY_MS = 3000"

text \<open>The operation that \<^verbatim>\<open>connectToRaspberryPi\<close> guards.\<close>

definition connect_op :: "'w remote_lib \<Rightarrow> 'w script \<Rightarrow> js_value promise \<times> 'w script" where
  "connect_op L st =
     (let st1 = journal_add Connecting st
      in case ssh_connect L (hub st1) of
           (None, w) \<Rightarrow> (Inr Undefined, journal_add Connected_ok (st1\<lparr>hub := w\<rparr>))
         | (Some message, w) \<Rightarrow> (Inl message, st1\<lparr>hub := w\<rparr>))"

text \<open>
  \<^verbatim>\<open>retry\<close> with its counter as an argument. It calls \<^verbatim>\<open>reconnectIfNeeded\<close>, which
  calls \<^verbatim>\<open>connectToRaspberryPi\<close>, which calls \<^verbatim>\<open>retry\<close>: the three are one recursion,
  written here in \<^verbatim>\<open>retry\<close>, and nothing bounds it, so a call that does not return is
  \<open>None\<close>. A loop that ends without a return gives \<^verbatim>\<open>undefined\<close>.
\<close>

partial_function (option) retry :: "'w remote_lib \<Rightarrow> ('w script \<Rightarrow> js_value promise \<times> 'w script)
    \<Rightarrow> nat \<Rightarrow> nat \<Rightarrow> 'w script \<Rightarrow> (js_value promise \<times> 'w script) option" where
  "retry L fn retries attempts st =
     (if attempts < retries then
        (case fn (journal_add Op_called st) of
           (Inr v, st1) \<Rightarrow> Some (Inr v, st1)
         | (Inl error, st1) \<Rightarrow>
             (if attempts + 1 \<ge> retries
              then Some (Inl error,
                         journal_add Max_retries_reached (journal_add (Attempt_failed (attempts + 1) error) st1))
              else
                Option.bind
                  (if ssh_isConnected L (hub st1)
                   then Some (Inr Undefined,
                              journal_add Hook_called (journal_add (Attempt_failed (attempts + 1) error) st1))
                   else retry L (connect_op L) RETRY_LIMIT 0
                          (journal_add Connection_lost
                             (journal_add Hook_called (journal_add (Attempt_failed (attempts + 1) error) st1))))
                  (\<lambda>reconnected.
                     case reconnected of
                       (Inl error2, st2) \<Rightarrow> Some (Inl error2, st2)
                     | (Inr _, st2) \<Rightarrow>
                         retry L fn retries (attempts + 1)
                           (journal_add (Slept RETRY_DELAY_MS) (journal_add Retrying st2)))))
      else Some (Inr Undefined, st))"

definition connectToRaspberryPi :: "'w remote_lib \<Rightarrow> 'w script
    \<Rightarrow> (js_value promise \<times> 'w script) option" where
  "connectToRaspberryPi L st = retry L (connect_op L) RETRY_LIMIT 0 st"

definition reconnectIfNeeded :: "'w remote_lib \<Rightarrow> 'w script
    \<Rightarrow> (js_value promise \<times> 'w script) option" where
  "reconnectIfNeeded L st =
     (if \<not> ssh_isConnected L (hub st) then connectToRaspberryPi L (journal_add Connection_lost st)
      else Some (Inr Undefined, st))"

text \<open>The operation that \<^verbatim>\<open>execCommandWithRetries\<close> guards, in the script for the workstation.\<close>

definition exec_op :: "'w remote_lib \<Rightarrow> string \<Rightarrow> string option \<Rightarrow> 'w script
    \<Rightarrow> js_value promise \<times> 'w script" where
  "exec_op L command cwd st =
     (case ssh_execCommand L command cwd (hub st) of
        (Inl error, w) \<Rightarrow> (Inl error, st\<lparr>hub := w\<rparr>)
      | (Inr result, w) \<Rightarrow>
          if truthy (stderr result) then (Inl (stderr result), st\<lparr>hub := w\<rparr>)
          else (Inr (Str (stdout result)), st\<lparr>hub := w\<rparr>))"

definition execCommandWithRetries :: "'w remote_lib \<Rightarrow> string \<Rightarrow> string option \<Rightarrow> 'w script
    \<Rightarrow> (js_value promise \<times> 'w script) option" where
  "execCommandWithRetries L command cwd st = retry L (exec_op L command cwd) RETRY_LIMIT 0 st"

subsection \<open>The script that runs on the hub\<close>

text \<open>
  A process run by \<^verbatim>\<open>zx\<close> with \<^verbatim>\<open>nothrow\<close>: its two outputs and its exit code
  (\<^verbatim>\<open>null\<close> on a signal). The shell of the hub is a parameter. This \<^verbatim>\<open>retry\<close> has no
  reconnect check, and its loop ends.
\<close>

record process_output =
  po_stdout :: string
  po_stderr :: string
  exitCode :: "int option"

type_synonym 'w shell = "string \<Rightarrow> 'w \<Rightarrow> process_output \<times> 'w"

function retry_local :: "('w script \<Rightarrow> js_value promise \<times> 'w script) \<Rightarrow> nat \<Rightarrow> nat \<Rightarrow> 'w script
    \<Rightarrow> js_value promise \<times> 'w script" where
  "retry_local fn retries attempts st =
     (if attempts < retries then
        (case fn (journal_add Op_called st) of
           (Inr v, st1) \<Rightarrow> (Inr v, st1)
         | (Inl error, st1) \<Rightarrow>
             (if attempts + 1 \<ge> retries
              then (Inl error,
                    journal_add Max_retries_reached (journal_add (Attempt_failed (attempts + 1) error) st1))
              else retry_local fn retries (attempts + 1)
                     (journal_add (Slept RETRY_DELAY_MS)
                        (journal_add Retrying (journal_add (Attempt_failed (attempts + 1) error) st1)))))
      else (Inr Undefined, st))"
  by pat_completeness auto
termination
  by (relation "measure (\<lambda>(fn, retries, attempts, st). retries - attempts)") auto

declare retry_local.simps [simp del]

definition exec_op_local :: "'w shell \<Rightarrow> string \<Rightarrow> string option \<Rightarrow> 'w script
    \<Rightarrow> js_value promise \<times> 'w script" where
  "exec_op_local sh command cwd st =
     (let fullCommand = (case cwd of
                           None \<Rightarrow> command
                         | Some dir \<Rightarrow> if truthy dir then ''cd '' @ dir @ '' && '' @ command
                                       else command)
      in case sh fullCommand (hub st) of
           (result, w) \<Rightarrow>
             if truthy (po_stderr result) \<and> exitCode result \<noteq> Some 0
             then (Inl (po_stderr result), st\<lparr>hub := w\<rparr>)
             else (Inr (Str (po_stdout result)), st\<lparr>hub := w\<rparr>))"

definition execCommandWithRetries_local :: "'w shell \<Rightarrow> string \<Rightarrow> string option \<Rightarrow> 'w script
    \<Rightarrow> js_value promise \<times> 'w script" where
  "execCommandWithRetries_local sh command cwd st =
     retry_local (exec_op_local sh command cwd) RETRY_LIMIT 0 st"

subsection \<open>Hubs for the examples\<close>

definition unreachable :: "unit remote_lib" where
  "unreachable =
     \<lparr>ssh_connect = (\<lambda>w. (Some ''connect ETIMEDOUT'', w)),
      ssh_isConnected = (\<lambda>w. False),
      ssh_execCommand = (\<lambda>command cwd w. (Inl ''Not connected to server'', w))\<rparr>"

definition warning_hub :: "unit remote_lib" where
  "warning_hub =
     \<lparr>ssh_connect = (\<lambda>w. (None, w)),
      ssh_isConnected = (\<lambda>w. True),
      ssh_execCommand = (\<lambda>command cwd w.
        (Inr \<lparr>stdout = ''added 135 packages'', stderr = ''npm WARN deprecated uuid@3.4.0'',
              code = Some 0\<rparr>, w))\<rparr>"

definition start :: "unit script" where
  "start = \<lparr>hub = (), journal = []\<rparr>"

section \<open>Vocabulary of the properties\<close>

text \<open>
  The events that the streaming callbacks of a handler write for one settled command, and
  the state of a request after some commands and events.
\<close>

definition chunks :: "command_result \<Rightarrow> progress_event list" where
  "chunks r = (if stdout r = [] then [] else [Stdout (stdout r)])
            @ (if stderr r = [] then [] else [Stderr (stderr r)])"

definition adv :: "'w run \<Rightarrow> 'w \<Rightarrow> (string \<times> command_result promise) list
    \<Rightarrow> progress_event list \<Rightarrow> 'w run" where
  "adv st w h s = st\<lparr>remote := w, history := history st @ h, sink := sink st @ s\<rparr>"

text \<open>
  Command texts by their fixed beginnings: the probes (\<^verbatim>\<open>which\<close>, \<^verbatim>\<open>test -f\<close>), whose
  rejection the handler catches; the two download commands; the two commands that change
  into the extracted directory.
\<close>

definition is_probe :: "string \<Rightarrow> bool" where
  "is_probe c = (prefix ''which '' c \<or> prefix ''test -f '' c)"

definition is_download :: "string \<Rightarrow> bool" where
  "is_download c = (prefix ''curl -L '' c \<or> prefix ''wget -O '' c)"

definition is_cd :: "string \<Rightarrow> bool" where
  \<open>is_cd c = prefix ''cd "'' c\<close>

text \<open>
  The failures that end a run of download-and-run, on an entry of its history: a command
  that is not a probe is rejected; the second tool probe finds no tool; the check of the
  archive does not report the file. And the message the handler raises for each.
\<close>

definition fatal :: "string \<Rightarrow> string \<times> command_result promise \<Rightarrow> bool" where
  "fatal archivePath entry =
     (case entry of
        (c, r) \<Rightarrow>
          if c = ''which wget'' then \<not> tool_present r
          else if c = test_f archivePath then \<not> reports_exists r
          else if is_probe c then False
          else isl r)"

definition failure_message :: "string \<Rightarrow> string \<times> command_result promise \<Rightarrow> string" where
  "failure_message archivePath entry =
     (case entry of
        (c, r) \<Rightarrow>
          if c = ''which wget'' then
            ''Neither curl nor wget is available on the hub. Please install one of them.''
          else if c = test_f archivePath then
            ''Download failed - archive file not found after download''
          else (case r of Inl e \<Rightarrow> e | Inr _ \<Rightarrow> []))"

text \<open>Invariants of the proofs: on the state a step starts in, and on what a step returns.\<close>

definition quiet :: "string \<Rightarrow> 'w run \<Rightarrow> bool" where
  "quiet ap st = (list_all (\<lambda>e. \<not> fatal ap e) (history st) \<and> filter is_terminal (sink st) = [])"

definition settled :: "string \<Rightarrow> unit promise \<times> 'w run \<Rightarrow> bool" where
  "settled ap res =
     (case res of
        (Inr _, st) \<Rightarrow>
          list_all (\<lambda>e. \<not> fatal ap e) (history st) \<and> ended st \<and> sink st \<noteq> []
          \<and> last (sink st) = Success ''Setup completed successfully!''
          \<and> filter is_terminal (sink st) = [Success ''Setup completed successfully!'']
      | (Inl e, st) \<Rightarrow>
          filter is_terminal (sink st) = [] \<and> history st \<noteq> []
          \<and> list_all (\<lambda>e. \<not> fatal ap e) (butlast (history st))
          \<and> fatal ap (last (history st)) \<and> e = failure_message ap (last (history st)))"

definition no_download :: "(string \<times> command_result promise) list \<Rightarrow> bool" where
  "no_download h = list_all (\<lambda>e. \<not> is_download (fst e)) h"

definition checked :: "string \<Rightarrow> unit promise \<times> 'w run \<Rightarrow> bool" where
  "checked ap res =
     (\<forall>pre c rd post. history (snd res) = pre @ (c, Inr rd) # post \<and> is_download c
        \<longrightarrow> (\<exists>rc post'. post = (test_f ap, rc) # post'))"

definition early :: "string \<Rightarrow> (string \<times> command_result promise) list \<Rightarrow> bool" where
  "early dir h =
     list_all (\<lambda>e. \<not> is_cd (fst e) \<and> fst e \<noteq> test_f (dir @ ''/package.json'')) h"

definition skipped :: "string \<Rightarrow> unit promise \<times> 'w run \<Rightarrow> bool" where
  "skipped dir res =
     (\<forall>pre rc post.
        history (snd res) = pre @ (test_f (dir @ ''/package.json''), rc) # post
          \<and> \<not> reports_exists rc
        \<longrightarrow> installCmd dir \<notin> fst ` set (history (snd res))
          \<and> (\<exists>rr. post = [(runCmd dir, rr)] \<and> fst res = map_sum id (\<lambda>_. ()) rr)
          \<and> (\<exists>es es'. sink (snd res) =
                es @ [Step 4 ''Installing dependencies...'',
                      Info ''No package.json found, skipping dependency installation'',
                      Step 5 ''Running hub-setup.js...''] @ es'))"

text \<open>
  A hub that differs from \<open>x\<close> in nothing but the exit codes it reports: every command other
  than the two tool probes that resolves does so with the exit code \<open>f\<close> gives, with the
  same output and the same effect on the hub. And an entry of the history without its exit
  code.
\<close>

definition recoded :: "int option \<Rightarrow> command_result promise \<Rightarrow> command_result promise" where
  "recoded k r = (case r of Inl e \<Rightarrow> Inl e | Inr v \<Rightarrow> Inr (v\<lparr>code := k\<rparr>))"

definition with_exit_codes :: "(string \<Rightarrow> string option \<Rightarrow> 'w \<Rightarrow> int option) \<Rightarrow> 'w exec
    \<Rightarrow> 'w exec" where
  "with_exit_codes f x c cwd w =
     (if c = ''which curl'' \<or> c = ''which wget'' then x c cwd w
      else case x c cwd w of (r, w') \<Rightarrow> (recoded (f c cwd w) r, w'))"

definition without_code :: "string \<times> command_result promise
    \<Rightarrow> string \<times> (string + string \<times> string)" where
  "without_code entry =
     (fst entry, case snd entry of Inl e \<Rightarrow> Inl e | Inr v \<Rightarrow> Inr (stdout v, stderr v))"



section \<open>Concrete hubs\<close>

text \<open>
  A request with no optional field, and a hub that has curl, reports every tested file as
  present and runs every other command silently with exit code 0; \<open>hub_with\<close> changes its
  answer to one command.
\<close>

definition default_request :: setup_request where
  "default_request = \<lparr>owner = None, repo = None, branch = None, basePath = None\<rparr>"

definition quiet_result :: command_result where
  "quiet_result = \<lparr>stdout = [], stderr = [], code = Some 0\<rparr>"

definition capable_hub :: "unit exec" where
  "capable_hub c cwd w =
     (if c = ''which curl'' then
        (Inr \<lparr>stdout = ''/usr/bin/curl'', stderr = [], code = Some 0\<rparr>, w)
      else if prefix ''test -f '' c then
        (Inr \<lparr>stdout = ''exists'', stderr = [], code = Some 0\<rparr>, w)
      else (Inr quiet_result, w))"

definition hub_with :: "string \<Rightarrow> command_result promise \<Rightarrow> unit exec" where
  "hub_with c0 r0 c cwd w = (if c = c0 then (r0, w) else capable_hub c cwd w)"

section \<open>The streaming executor delivers each stream once, whole, after completion\<close>


section \<open>The steps of download-and-run, one settled command at a time\<close>

lemma adv_simps [simp]:
  "remote (adv st w h s) = w"
  "history (adv st w h s) = history st @ h"
  "sink (adv st w h s) = sink st @ s"
  "ended (adv st w h s) = ended st"
  "adv (adv st w h s) w' h' s' = adv st w' (h @ h') (s @ s')"
  "res_write e (adv st w h s) = adv st w h (s @ [e])"
  by (simp_all add: adv_def res_write_def)

lemma res_write_adv: "res_write e st = adv st (remote st) [] [e]"
  by (simp add: adv_def res_write_def)

lemma res_end_simps [simp]:
  "remote (res_end st) = remote st"
  "history (res_end st) = history st"
  "sink (res_end st) = sink st"
  "ended (res_end st)"
  by (simp_all add: res_end_def)

lemma command_result_eta: "\<lparr>stdout = stdout r, stderr = stderr r, code = code r\<rparr> = r"
  by (cases r) simp

lemma executeCommand_eq:
  "x c cwd (remote st) = (r, w) \<Longrightarrow> executeCommand x c cwd st = (r, adv st w [(c, r)] [])"
  by (cases r) (simp_all add: executeCommand_def execCommand_def command_result_eta adv_def)

lemma stream_rejected:
  "x c cwd (remote st) = (Inl e, w) \<Longrightarrow>
   executeCommandWithStream x c cwd write_stdout write_stderr st = (Inl e, adv st w [(c, Inl e)] [])"
  by (simp add: executeCommandWithStream_def execCommand_def adv_def)

lemma stream_resolved:
  "x c cwd (remote st) = (Inr r, w) \<Longrightarrow>
   executeCommandWithStream x c cwd write_stdout write_stderr st =
     (Inr (code r), adv st w [(c, Inr r)] (chunks r))"
  by (simp add: executeCommandWithStream_def execCommand_def call_if_def write_stdout_def
          write_stderr_def res_write_def truthy_def chunks_def Let_def adv_def)

lemma step5_rejected:
  "x (runCmd dir) None (remote st) = (Inl e, w) \<Longrightarrow>
   step5 x dir st = (Inl e, adv st w [(runCmd dir, Inl e)] [Step 5 ''Running hub-setup.js...''])"
  using stream_rejected [of x "runCmd dir" None "adv st (remote st) [] [Step 5 ''Running hub-setup.js...'']" e w]
  by (simp add: step5_def res_write_adv [of _ st])

lemma step5_resolved:
  "x (runCmd dir) None (remote st) = (Inr v, w) \<Longrightarrow>
   step5 x dir st =
     (Inr (), res_end (adv st w [(runCmd dir, Inr v)]
        (Step 5 ''Running hub-setup.js...'' # chunks v @ [Success ''Setup completed successfully!''])))"
  using stream_resolved [of x "runCmd dir" None "adv st (remote st) [] [Step 5 ''Running hub-setup.js...'']" v w]
  by (simp add: step5_def res_write_adv [of _ st])

lemma step4_skip:
  "x (test_f (dir @ ''/package.json'')) None (remote st) = (rc, w) \<Longrightarrow> \<not> reports_exists rc \<Longrightarrow>
   step4 x dir st =
     step5 x dir (adv st w [(test_f (dir @ ''/package.json''), rc)]
       [Step 4 ''Installing dependencies...'',
        Info ''No package.json found, skipping dependency installation''])"
  using executeCommand_eq [of x "test_f (dir @ ''/package.json'')" None
      "adv st (remote st) [] [Step 4 ''Installing dependencies...'']" rc w]
  by (simp add: step4_def res_write_adv [of _ st])

lemma step4_rejected:
  "x (test_f (dir @ ''/package.json'')) None (remote st) = (rc, w) \<Longrightarrow> reports_exists rc \<Longrightarrow>
   x (installCmd dir) None w = (Inl e, w') \<Longrightarrow>
   step4 x dir st =
     (Inl e, adv st w' [(test_f (dir @ ''/package.json''), rc), (installCmd dir, Inl e)]
       [Step 4 ''Installing dependencies...'',
        Info ''Found package.json, installing dependencies...''])"
  using executeCommand_eq [of x "test_f (dir @ ''/package.json'')" None
      "adv st (remote st) [] [Step 4 ''Installing dependencies...'']" rc w]
    stream_rejected [of x "installCmd dir" None "adv st w [(test_f (dir @ ''/package.json''), rc)]
       [Step 4 ''Installing dependencies...'',
        Info ''Found package.json, installing dependencies...'']" e w']
  by (simp add: step4_def res_write_adv [of _ st])

lemma step4_resolved:
  "x (test_f (dir @ ''/package.json'')) None (remote st) = (rc, w) \<Longrightarrow> reports_exists rc \<Longrightarrow>
   x (installCmd dir) None w = (Inr v, w') \<Longrightarrow>
   step4 x dir st =
     step5 x dir (adv st w' [(test_f (dir @ ''/package.json''), rc), (installCmd dir, Inr v)]
       (Step 4 ''Installing dependencies...''
        # Info ''Found package.json, installing dependencies...''
        # chunks v @ [Info ''Dependencies installed successfully'']))"
  using executeCommand_eq [of x "test_f (dir @ ''/package.json'')" None
      "adv st (remote st) [] [Step 4 ''Installing dependencies...'']" rc w]
    stream_resolved [of x "installCmd dir" None "adv st w [(test_f (dir @ ''/package.json''), rc)]
       [Step 4 ''Installing dependencies...'',
        Info ''Found package.json, installing dependencies...'']" v w']
  by (simp add: step4_def res_write_adv [of _ st])

lemma step3_rejected:
  "x (generateExtractCommand a base) None (remote st) = (Inl e, w) \<Longrightarrow>
   step3 x a base name br st =
     (Inl e, adv st w [(generateExtractCommand a base, Inl e)] [Step 3 ''Extracting archive...''])"
  using stream_rejected [of x "generateExtractCommand a base" None
      "adv st (remote st) [] [Step 3 ''Extracting archive...'']" e w]
  by (simp add: step3_def res_write_adv [of _ st])

lemma step3_resolved:
  "x (generateExtractCommand a base) None (remote st) = (Inr v, w) \<Longrightarrow>
   step3 x a base name br st =
     step4 x (base @ ''/'' @ name @ ''-'' @ br)
       (adv st w [(generateExtractCommand a base, Inr v)]
          (Step 3 ''Extracting archive...'' # chunks v))"
  using stream_resolved [of x "generateExtractCommand a base" None
      "adv st (remote st) [] [Step 3 ''Extracting archive...'']" v w]
  by (simp add: step3_def res_write_adv [of _ st])

lemma download_rejected:
  "x (generateDownloadCommand (getBranchArchiveUrl ow name br) (base @ ''/repo.tar.gz'') tool)
     None (remote st) = (Inl e, w) \<Longrightarrow>
   step2_download x tool ow name br base st =
     (Inl e, adv st w
        [(generateDownloadCommand (getBranchArchiveUrl ow name br) (base @ ''/repo.tar.gz'') tool,
          Inl e)]
        [Info (''Using '' @ tool @ '' for download...''), Step 2 ''Downloading repository...''])"
  using stream_rejected [of x
      "generateDownloadCommand (getBranchArchiveUrl ow name br) (base @ ''/repo.tar.gz'') tool" None
      "adv st (remote st) []
         [Info (''Using '' @ tool @ '' for download...''), Step 2 ''Downloading repository...'']"
      e w]
  by (simp add: step2_download_def res_write_adv [of _ st] Let_def)

lemma download_missing:
  "x (generateDownloadCommand (getBranchArchiveUrl ow name br) (base @ ''/repo.tar.gz'') tool)
     None (remote st) = (Inr v, w) \<Longrightarrow>
   x (test_f (base @ ''/repo.tar.gz'')) None w = (rc, w') \<Longrightarrow> \<not> reports_exists rc \<Longrightarrow>
   step2_download x tool ow name br base st =
     (Inl ''Download failed - archive file not found after download'',
      adv st w'
        [(generateDownloadCommand (getBranchArchiveUrl ow name br) (base @ ''/repo.tar.gz'') tool,
          Inr v),
         (test_f (base @ ''/repo.tar.gz''), rc)]
        (Info (''Using '' @ tool @ '' for download...'') # Step 2 ''Downloading repository...''
         # chunks v))"
  using stream_resolved [of x
      "generateDownloadCommand (getBranchArchiveUrl ow name br) (base @ ''/repo.tar.gz'') tool" None
      "adv st (remote st) []
         [Info (''Using '' @ tool @ '' for download...''), Step 2 ''Downloading repository...'']"
      v w]
    executeCommand_eq [of x "test_f (base @ ''/repo.tar.gz'')" None
      "adv st w
        [(generateDownloadCommand (getBranchArchiveUrl ow name br) (base @ ''/repo.tar.gz'') tool,
          Inr v)]
        (Info (''Using '' @ tool @ '' for download...'') # Step 2 ''Downloading repository...''
         # chunks v)" rc w']
  by (simp add: step2_download_def res_write_adv [of _ st] Let_def)

lemma download_present:
  "x (generateDownloadCommand (getBranchArchiveUrl ow name br) (base @ ''/repo.tar.gz'') tool)
     None (remote st) = (Inr v, w) \<Longrightarrow>
   x (test_f (base @ ''/repo.tar.gz'')) None w = (rc, w') \<Longrightarrow> reports_exists rc \<Longrightarrow>
   step2_download x tool ow name br base st =
     step3 x (base @ ''/repo.tar.gz'') base name br
       (adv st w'
        [(generateDownloadCommand (getBranchArchiveUrl ow name br) (base @ ''/repo.tar.gz'') tool,
          Inr v),
         (test_f (base @ ''/repo.tar.gz''), rc)]
        (Info (''Using '' @ tool @ '' for download...'') # Step 2 ''Downloading repository...''
         # chunks v))"
  using stream_resolved [of x
      "generateDownloadCommand (getBranchArchiveUrl ow name br) (base @ ''/repo.tar.gz'') tool" None
      "adv st (remote st) []
         [Info (''Using '' @ tool @ '' for download...''), Step 2 ''Downloading repository...'']"
      v w]
    executeCommand_eq [of x "test_f (base @ ''/repo.tar.gz'')" None
      "adv st w
        [(generateDownloadCommand (getBranchArchiveUrl ow name br) (base @ ''/repo.tar.gz'') tool,
          Inr v)]
        (Info (''Using '' @ tool @ '' for download...'') # Step 2 ''Downloading repository...''
         # chunks v)" rc w']
  by (simp add: step2_download_def res_write_adv [of _ st] Let_def)

lemma step2_curl:
  "x ''which curl'' None (remote st) = (r, w) \<Longrightarrow> tool_present r \<Longrightarrow>
   step2 x ow name br base st =
     step2_download x ''curl'' ow name br base
       (adv st w [(''which curl'', r)] [Step 2 ''Checking for download tools...''])"
  using executeCommand_eq [of x "''which curl''" None
      "adv st (remote st) [] [Step 2 ''Checking for download tools...'']" r w]
  by (simp add: step2_def detectDownloadTool_def res_write_adv [of _ st])

lemma step2_wget:
  "x ''which curl'' None (remote st) = (r, w) \<Longrightarrow> \<not> tool_present r \<Longrightarrow>
   x ''which wget'' None w = (r', w') \<Longrightarrow> tool_present r' \<Longrightarrow>
   step2 x ow name br base st =
     step2_download x ''wget'' ow name br base
       (adv st w' [(''which curl'', r), (''which wget'', r')]
          [Step 2 ''Checking for download tools...''])"
  using executeCommand_eq [of x "''which curl''" None
      "adv st (remote st) [] [Step 2 ''Checking for download tools...'']" r w]
    executeCommand_eq [of x "''which wget''" None
      "adv st w [(''which curl'', r)] [Step 2 ''Checking for download tools...'']" r' w']
  by (simp add: step2_def detectDownloadTool_def res_write_adv [of _ st])

lemma step2_none:
  "x ''which curl'' None (remote st) = (r, w) \<Longrightarrow> \<not> tool_present r \<Longrightarrow>
   x ''which wget'' None w = (r', w') \<Longrightarrow> \<not> tool_present r' \<Longrightarrow>
   step2 x ow name br base st =
     (Inl ''Neither curl nor wget is available on the hub. Please install one of them.'',
      adv st w' [(''which curl'', r), (''which wget'', r')]
          [Step 2 ''Checking for download tools...''])"
  using executeCommand_eq [of x "''which curl''" None
      "adv st (remote st) [] [Step 2 ''Checking for download tools...'']" r w]
    executeCommand_eq [of x "''which wget''" None
      "adv st w [(''which curl'', r)] [Step 2 ''Checking for download tools...'']" r' w']
  by (simp add: step2_def detectDownloadTool_def res_write_adv [of _ st])

lemma step1_rejected:
  "x (generateMkdirCommand base) None (remote st) = (Inl e, w) \<Longrightarrow>
   step1 x ow name br base st =
     (Inl e, adv st w [(generateMkdirCommand base, Inl e)] [Step 1 ''Creating directory...''])"
  using executeCommand_eq [of x "generateMkdirCommand base" None
      "adv st (remote st) [] [Step 1 ''Creating directory...'']" "Inl e" w]
  by (simp add: step1_def res_write_adv [of _ st])

lemma step1_resolved:
  "x (generateMkdirCommand base) None (remote st) = (Inr v, w) \<Longrightarrow>
   step1 x ow name br base st =
     step2 x ow name br base
       (adv st w [(generateMkdirCommand base, Inr v)] [Step 1 ''Creating directory...''])"
  using executeCommand_eq [of x "generateMkdirCommand base" None
      "adv st (remote st) [] [Step 1 ''Creating directory...'']" "Inr v" w]
  by (simp add: step1_def res_write_adv [of _ st])

subsection \<open>The ways each step can go\<close>

lemma step5_cases:
  obtains (rejected) e w where
      "step5 x dir st =
         (Inl e, adv st w [(runCmd dir, Inl e)] [Step 5 ''Running hub-setup.js...''])"
  | (resolved) v w where
      "step5 x dir st =
         (Inr (), res_end (adv st w [(runCmd dir, Inr v)]
            (Step 5 ''Running hub-setup.js...'' # chunks v
             @ [Success ''Setup completed successfully!''])))"
proof -
  obtain r w where e: "x (runCmd dir) None (remote st) = (r, w)" by force
  show thesis
  proof (cases r)
    case (Inl m)
    with e have "x (runCmd dir) None (remote st) = (Inl m, w)" by simp
    then show ?thesis by (intro rejected step5_rejected)
  next
    case (Inr v)
    with e have "x (runCmd dir) None (remote st) = (Inr v, w)" by simp
    then show ?thesis by (intro resolved step5_resolved)
  qed
qed

lemma step4_cases:
  obtains (skip) rc w where "\<not> reports_exists rc"
      "step4 x dir st =
         step5 x dir (adv st w [(test_f (dir @ ''/package.json''), rc)]
           [Step 4 ''Installing dependencies...'',
            Info ''No package.json found, skipping dependency installation''])"
  | (rejected) rc e w where "reports_exists rc"
      "step4 x dir st =
         (Inl e, adv st w [(test_f (dir @ ''/package.json''), rc), (installCmd dir, Inl e)]
           [Step 4 ''Installing dependencies...'',
            Info ''Found package.json, installing dependencies...''])"
  | (resolved) rc v w where "reports_exists rc"
      "step4 x dir st =
         step5 x dir (adv st w [(test_f (dir @ ''/package.json''), rc), (installCmd dir, Inr v)]
           (Step 4 ''Installing dependencies...''
            # Info ''Found package.json, installing dependencies...''
            # chunks v @ [Info ''Dependencies installed successfully'']))"
proof -
  obtain rc w where e: "x (test_f (dir @ ''/package.json'')) None (remote st) = (rc, w)" by force
  show thesis
  proof (cases "reports_exists rc")
    case False
    with e show ?thesis by (intro skip step4_skip)
  next
    case True
    obtain r' w' where e': "x (installCmd dir) None w = (r', w')" by force
    show ?thesis
    proof (cases r')
      case (Inl m)
      with e' have "x (installCmd dir) None w = (Inl m, w')" by simp
      with e True show ?thesis by (intro rejected step4_rejected)
    next
      case (Inr v)
      with e' have "x (installCmd dir) None w = (Inr v, w')" by simp
      with e True show ?thesis by (intro resolved step4_resolved)
    qed
  qed
qed

lemma step3_cases:
  obtains (rejected) e w where
      "step3 x a base name br st =
         (Inl e, adv st w [(generateExtractCommand a base, Inl e)]
            [Step 3 ''Extracting archive...''])"
  | (resolved) v w where
      "step3 x a base name br st =
         step4 x (base @ ''/'' @ name @ ''-'' @ br)
           (adv st w [(generateExtractCommand a base, Inr v)]
              (Step 3 ''Extracting archive...'' # chunks v))"
proof -
  obtain r w where e: "x (generateExtractCommand a base) None (remote st) = (r, w)" by force
  show thesis
  proof (cases r)
    case (Inl m)
    with e have "x (generateExtractCommand a base) None (remote st) = (Inl m, w)" by simp
    then show ?thesis by (intro rejected step3_rejected)
  next
    case (Inr v)
    with e have "x (generateExtractCommand a base) None (remote st) = (Inr v, w)" by simp
    then show ?thesis by (intro resolved step3_resolved)
  qed
qed

lemma step2_download_cases:
  obtains (rejected) e w where
      "step2_download x tool ow name br base st =
         (Inl e, adv st w
            [(generateDownloadCommand (getBranchArchiveUrl ow name br) (base @ ''/repo.tar.gz'') tool,
              Inl e)]
            [Info (''Using '' @ tool @ '' for download...''), Step 2 ''Downloading repository...''])"
  | (missing) v rc w where "\<not> reports_exists rc"
      "step2_download x tool ow name br base st =
         (Inl ''Download failed - archive file not found after download'',
          adv st w
            [(generateDownloadCommand (getBranchArchiveUrl ow name br) (base @ ''/repo.tar.gz'') tool,
              Inr v),
             (test_f (base @ ''/repo.tar.gz''), rc)]
            (Info (''Using '' @ tool @ '' for download...'') # Step 2 ''Downloading repository...''
             # chunks v))"
  | (present) v rc w where "reports_exists rc"
      "step2_download x tool ow name br base st =
         step3 x (base @ ''/repo.tar.gz'') base name br
           (adv st w
            [(generateDownloadCommand (getBranchArchiveUrl ow name br) (base @ ''/repo.tar.gz'') tool,
              Inr v),
             (test_f (base @ ''/repo.tar.gz''), rc)]
            (Info (''Using '' @ tool @ '' for download...'') # Step 2 ''Downloading repository...''
             # chunks v))"
proof -
  let ?dl = "generateDownloadCommand (getBranchArchiveUrl ow name br) (base @ ''/repo.tar.gz'') tool"
  obtain r w where e: "x ?dl None (remote st) = (r, w)" by force
  show thesis
  proof (cases r)
    case (Inl m)
    with e have "x ?dl None (remote st) = (Inl m, w)" by simp
    then show ?thesis by (intro rejected download_rejected)
  next
    case (Inr v)
    with e have d: "x ?dl None (remote st) = (Inr v, w)" by simp
    obtain rc w' where e': "x (test_f (base @ ''/repo.tar.gz'')) None w = (rc, w')" by force
    show ?thesis
    proof (cases "reports_exists rc")
      case False
      with d e' show ?thesis by (intro missing download_missing)
    next
      case True
      with d e' show ?thesis by (intro present download_present)
    qed
  qed
qed

lemma step2_cases:
  obtains (curl) r w where "tool_present r"
      "step2 x ow name br base st =
         step2_download x ''curl'' ow name br base
           (adv st w [(''which curl'', r)] [Step 2 ''Checking for download tools...''])"
  | (wget) r r' w where "\<not> tool_present r" "tool_present r'"
      "step2 x ow name br base st =
         step2_download x ''wget'' ow name br base
           (adv st w [(''which curl'', r), (''which wget'', r')]
              [Step 2 ''Checking for download tools...''])"
  | (none) r r' w where "\<not> tool_present r" "\<not> tool_present r'"
      "step2 x ow name br base st =
         (Inl ''Neither curl nor wget is available on the hub. Please install one of them.'',
          adv st w [(''which curl'', r), (''which wget'', r')]
              [Step 2 ''Checking for download tools...''])"
proof -
  obtain r w where e: "x ''which curl'' None (remote st) = (r, w)" by force
  show thesis
  proof (cases "tool_present r")
    case True
    with e show ?thesis by (intro curl step2_curl)
  next
    case False
    obtain r' w' where e': "x ''which wget'' None w = (r', w')" by force
    show ?thesis
    proof (cases "tool_present r'")
      case True
      with False e e' show ?thesis by (intro wget step2_wget)
    next
      case no: False
      with False e e' show ?thesis by (intro none step2_none)
    qed
  qed
qed

lemma step1_cases:
  obtains (rejected) e w where
      "step1 x ow name br base st =
         (Inl e, adv st w [(generateMkdirCommand base, Inl e)] [Step 1 ''Creating directory...''])"
  | (resolved) v w where
      "step1 x ow name br base st =
         step2 x ow name br base
           (adv st w [(generateMkdirCommand base, Inr v)] [Step 1 ''Creating directory...''])"
proof -
  obtain r w where e: "x (generateMkdirCommand base) None (remote st) = (r, w)" by force
  show thesis
  proof (cases r)
    case (Inl m)
    with e have "x (generateMkdirCommand base) None (remote st) = (Inl m, w)" by simp
    then show ?thesis by (intro rejected step1_rejected)
  next
    case (Inr v)
    with e have "x (generateMkdirCommand base) None (remote st) = (Inr v, w)" by simp
    then show ?thesis by (intro resolved step1_resolved)
  qed
qed

subsection \<open>Command texts\<close>

lemma probe_texts [simp]:
  "is_probe ''which curl''" "is_probe ''which wget''" "is_probe (test_f p)"
  "\<not> is_probe (generateMkdirCommand p)"
  "\<not> is_probe (generateDownloadCommand u a t)"
  "\<not> is_probe (generateExtractCommand a b)"
  "\<not> is_probe (installCmd d)"
  "\<not> is_probe (runCmd d)"
  by (simp_all add: is_probe_def test_f_def generateMkdirCommand_def generateDownloadCommand_def
      generateCurlCommand_def generateWgetCommand_def generateExtractCommand_def installCmd_def
      runCmd_def)

lemma download_texts [simp]:
  "is_download (generateDownloadCommand u a t)"
  "\<not> is_download ''which curl''" "\<not> is_download ''which wget''" "\<not> is_download (test_f p)"
  "\<not> is_download (generateMkdirCommand p)"
  "\<not> is_download (generateExtractCommand a b)"
  "\<not> is_download (installCmd d)"
  "\<not> is_download (runCmd d)"
  by (simp_all add: is_download_def test_f_def generateMkdirCommand_def generateDownloadCommand_def
      generateCurlCommand_def generateWgetCommand_def generateExtractCommand_def installCmd_def
      runCmd_def)

lemma cd_texts [simp]:
  "is_cd (installCmd d)" "is_cd (runCmd d)"
  "\<not> is_cd ''which curl''" "\<not> is_cd ''which wget''" "\<not> is_cd (test_f p)"
  "\<not> is_cd (generateMkdirCommand p)"
  "\<not> is_cd (generateDownloadCommand u a t)"
  "\<not> is_cd (generateExtractCommand a b)"
  by (simp_all add: is_cd_def test_f_def generateMkdirCommand_def generateDownloadCommand_def
      generateCurlCommand_def generateWgetCommand_def generateExtractCommand_def installCmd_def
      runCmd_def)

lemma test_f_inj [simp]: "(test_f p = test_f q) = (p = q)"
  by (simp add: test_f_def)

lemma test_f_not_which [simp]:
  "test_f p \<noteq> ''which wget''" "test_f p \<noteq> ''which curl''"
  "''which wget'' \<noteq> test_f p" "''which curl'' \<noteq> test_f p"
  by (simp_all add: test_f_def)

lemma run_not_install [simp]: "runCmd d \<noteq> installCmd d" "installCmd d \<noteq> runCmd d"
  by (simp_all add: runCmd_def installCmd_def)

lemma package_json_not_archive [simp]:
  "base @ ''/'' @ name @ ''-'' @ br @ ''/package.json'' \<noteq> base @ ''/repo.tar.gz''"
proof
  assume "base @ ''/'' @ name @ ''-'' @ br @ ''/package.json'' = base @ ''/repo.tar.gz''"
  then have "last (base @ ''/'' @ name @ ''-'' @ br @ ''/package.json'')
             = last (base @ ''/repo.tar.gz'')"
    by (rule arg_cong)
  then show False by simp
qed

lemma fatal_stage [simp]: "\<not> is_probe c \<Longrightarrow> fatal ap (c, r) = isl r"
  by (auto simp: fatal_def)

lemma message_stage [simp]: "\<not> is_probe c \<Longrightarrow> failure_message ap (c, Inl e) = e"
  by (auto simp: failure_message_def)

lemma fatal_probes [simp]:
  "fatal ap (''which curl'', r) = False"
  "fatal ap (''which wget'', r) = (\<not> tool_present r)"
  "fatal ap (test_f ap, r) = (\<not> reports_exists r)"
  "p \<noteq> ap \<Longrightarrow> fatal ap (test_f p, r) = False"
  by (simp_all add: fatal_def)

lemma message_probes [simp]:
  "failure_message ap (''which wget'', r) =
     ''Neither curl nor wget is available on the hub. Please install one of them.''"
  "failure_message ap (test_f ap, r) = ''Download failed - archive file not found after download''"
  by (simp_all add: failure_message_def)

lemma filter_chunks [simp]: "filter is_terminal (chunks r) = []"
  by (simp add: chunks_def)

subsection \<open>Lists\<close>



lemma no_split: "list_all (\<lambda>e. \<not> P e) xs \<Longrightarrow> xs = pre @ b # post \<Longrightarrow> P b \<Longrightarrow> False"
  by (auto simp: list_all_iff)

lemma split_unique:
  "xs @ a # ys = pre @ b # post \<Longrightarrow> list_all (\<lambda>e. \<not> P e) xs \<Longrightarrow> list_all (\<lambda>e. \<not> P e) ys
   \<Longrightarrow> P b \<Longrightarrow> pre = xs \<and> b = a \<and> post = ys"
proof (induction xs arbitrary: pre)
  case Nil
  then show ?case by (cases pre) (auto simp: list_all_iff)
next
  case (Cons x xs)
  then show ?case by (cases pre) (auto simp: list_all_iff)
qed

section \<open>Every run settles with one terminal event, at its first fatal failure\<close>

lemma step5_settled: "quiet ap st \<Longrightarrow> settled ap (step5 x dir st)"
  by (cases rule: step5_cases [of x dir st]) (simp_all add: quiet_def settled_def)

lemma step4_settled:
  "quiet ap st \<Longrightarrow> dir @ ''/package.json'' \<noteq> ap \<Longrightarrow> settled ap (step4 x dir st)"
proof (cases rule: step4_cases [of x dir st])
  case (skip rc w)
  assume "quiet ap st" "dir @ ''/package.json'' \<noteq> ap"
  then have "quiet ap (adv st w [(test_f (dir @ ''/package.json''), rc)]
           [Step 4 ''Installing dependencies...'',
            Info ''No package.json found, skipping dependency installation''])"
    by (simp add: quiet_def)
  with skip show ?thesis by (simp add: step5_settled)
next
  case (rejected rc e w)
  assume "quiet ap st" "dir @ ''/package.json'' \<noteq> ap"
  with rejected show ?thesis by (simp add: quiet_def settled_def butlast_append)
next
  case (resolved rc v w)
  assume "quiet ap st" "dir @ ''/package.json'' \<noteq> ap"
  then have "quiet ap (adv st w [(test_f (dir @ ''/package.json''), rc), (installCmd dir, Inr v)]
           (Step 4 ''Installing dependencies...''
            # Info ''Found package.json, installing dependencies...''
            # chunks v @ [Info ''Dependencies installed successfully'']))"
    by (simp add: quiet_def)
  with resolved show ?thesis by (simp add: step5_settled)
qed

lemma step3_settled:
  "quiet (base @ ''/repo.tar.gz'') st \<Longrightarrow>
   settled (base @ ''/repo.tar.gz'') (step3 x a base name br st)"
proof (cases rule: step3_cases [of x a base name br st])
  case (rejected e w)
  assume "quiet (base @ ''/repo.tar.gz'') st"
  with rejected show ?thesis by (simp add: quiet_def settled_def)
next
  case (resolved v w)
  assume "quiet (base @ ''/repo.tar.gz'') st"
  then have "quiet (base @ ''/repo.tar.gz'') (adv st w [(generateExtractCommand a base, Inr v)]
              (Step 3 ''Extracting archive...'' # chunks v))"
    by (simp add: quiet_def)
  with resolved show ?thesis by (simp add: step4_settled)
qed

lemma step2_download_settled:
  "quiet (base @ ''/repo.tar.gz'') st \<Longrightarrow>
   settled (base @ ''/repo.tar.gz'') (step2_download x tool ow name br base st)"
proof (cases rule: step2_download_cases [of x tool ow name br base st])
  case (rejected e w)
  assume "quiet (base @ ''/repo.tar.gz'') st"
  with rejected show ?thesis by (simp add: quiet_def settled_def)
next
  case (missing v rc w)
  assume "quiet (base @ ''/repo.tar.gz'') st"
  with missing show ?thesis by (simp add: quiet_def settled_def butlast_append)
next
  case (present v rc w)
  assume "quiet (base @ ''/repo.tar.gz'') st"
  with present(1) have "quiet (base @ ''/repo.tar.gz'') (adv st w
            [(generateDownloadCommand (getBranchArchiveUrl ow name br) (base @ ''/repo.tar.gz'') tool,
              Inr v),
             (test_f (base @ ''/repo.tar.gz''), rc)]
            (Info (''Using '' @ tool @ '' for download...'') # Step 2 ''Downloading repository...''
             # chunks v))"
    by (simp add: quiet_def)
  with present show ?thesis by (simp add: step3_settled)
qed

lemma step2_settled:
  "quiet (base @ ''/repo.tar.gz'') st \<Longrightarrow>
   settled (base @ ''/repo.tar.gz'') (step2 x ow name br base st)"
proof (cases rule: step2_cases [of x ow name br base st])
  case (curl r w)
  assume "quiet (base @ ''/repo.tar.gz'') st"
  then have "quiet (base @ ''/repo.tar.gz'')
      (adv st w [(''which curl'', r)] [Step 2 ''Checking for download tools...''])"
    by (simp add: quiet_def)
  with curl show ?thesis by (simp add: step2_download_settled)
next
  case (wget r r' w)
  assume "quiet (base @ ''/repo.tar.gz'') st"
  with wget(2) have "quiet (base @ ''/repo.tar.gz'')
      (adv st w [(''which curl'', r), (''which wget'', r')]
         [Step 2 ''Checking for download tools...''])"
    by (simp add: quiet_def)
  with wget show ?thesis by (simp add: step2_download_settled)
next
  case (none r r' w)
  assume "quiet (base @ ''/repo.tar.gz'') st"
  with none show ?thesis by (simp add: quiet_def settled_def butlast_append)
qed

lemma step1_settled:
  "quiet (base @ ''/repo.tar.gz'') st \<Longrightarrow>
   settled (base @ ''/repo.tar.gz'') (step1 x ow name br base st)"
proof (cases rule: step1_cases [of x ow name br base st])
  case (rejected e w)
  assume "quiet (base @ ''/repo.tar.gz'') st"
  with rejected show ?thesis by (simp add: quiet_def settled_def)
next
  case (resolved v w)
  assume "quiet (base @ ''/repo.tar.gz'') st"
  then have "quiet (base @ ''/repo.tar.gz'')
      (adv st w [(generateMkdirCommand base, Inr v)] [Step 1 ''Creating directory...''])"
    by (simp add: quiet_def)
  with resolved show ?thesis by (simp add: step2_settled)
qed

lemma run_settled:
  "settled (archivePath_of body)
     (step1 x (repoOwner_of body) (repoName_of body) (repoBranch_of body)
        (hubBasePath_of body) (fresh w))"
  unfolding archivePath_of_def by (rule step1_settled) (simp add: quiet_def fresh_def)

section \<open>A completed download is followed by the check of the archive\<close>

lemma step5_grows:
  "\<exists>h. history (snd (step5 x dir st)) = history st @ h \<and> no_download h"
  by (cases rule: step5_cases [of x dir st]) (simp_all add: no_download_def)

lemma step4_grows:
  "\<exists>h. history (snd (step4 x dir st)) = history st @ h \<and> no_download h"
proof (cases rule: step4_cases [of x dir st])
  case (skip rc w)
  let ?st = "adv st w [(test_f (dir @ ''/package.json''), rc)]
           [Step 4 ''Installing dependencies...'',
            Info ''No package.json found, skipping dependency installation'']"
  obtain h where "history (snd (step5 x dir ?st)) = history ?st @ h" "no_download h"
    using step5_grows by blast
  with skip show ?thesis
    by (intro exI [of _ "(test_f (dir @ ''/package.json''), rc) # h"]) (simp add: no_download_def)
next
  case (rejected rc e w)
  then show ?thesis by (simp add: no_download_def)
next
  case (resolved rc v w)
  let ?st = "adv st w [(test_f (dir @ ''/package.json''), rc), (installCmd dir, Inr v)]
           (Step 4 ''Installing dependencies...''
            # Info ''Found package.json, installing dependencies...''
            # chunks v @ [Info ''Dependencies installed successfully''])"
  obtain h where "history (snd (step5 x dir ?st)) = history ?st @ h" "no_download h"
    using step5_grows by blast
  with resolved show ?thesis
    by (intro exI [of _ "(test_f (dir @ ''/package.json''), rc) # (installCmd dir, Inr v) # h"])
       (simp add: no_download_def)
qed

lemma step3_grows:
  "\<exists>h. history (snd (step3 x a base name br st)) = history st @ h \<and> no_download h"
proof (cases rule: step3_cases [of x a base name br st])
  case (rejected e w)
  then show ?thesis by (simp add: no_download_def)
next
  case (resolved v w)
  let ?st = "adv st w [(generateExtractCommand a base, Inr v)]
              (Step 3 ''Extracting archive...'' # chunks v)"
  obtain h where "history (snd (step4 x (base @ ''/'' @ name @ ''-'' @ br) ?st)) = history ?st @ h"
      "no_download h"
    using step4_grows by blast
  with resolved show ?thesis
    by (intro exI [of _ "(generateExtractCommand a base, Inr v) # h"]) (simp add: no_download_def)
qed

lemma step2_download_checked:
  assumes "no_download (history st)"
  shows "checked (base @ ''/repo.tar.gz'') (step2_download x tool ow name br base st)"
proof -
  let ?dl = "generateDownloadCommand (getBranchArchiveUrl ow name br) (base @ ''/repo.tar.gz'') tool"
  let ?chk = "test_f (base @ ''/repo.tar.gz'')"
  have n: "list_all (\<lambda>e. \<not> is_download (fst e)) (history st)"
    using assms by (simp add: no_download_def)
  show ?thesis
  proof (cases rule: step2_download_cases [of x tool ow name br base st])
    case (rejected e w)
    show ?thesis unfolding checked_def
    proof (intro allI impI)
      fix pre c rd post
      assume a: "history (snd (step2_download x tool ow name br base st)) = pre @ (c, Inr rd) # post
          \<and> is_download c"
      with rejected have "history st @ (?dl, Inl e) # [] = pre @ (c, Inr rd) # post" by simp
      moreover have "list_all (\<lambda>e. \<not> is_download (fst e)) []" by simp
      moreover have "is_download (fst (c, Inr rd :: command_result promise))" using a by simp
      ultimately have "pre = history st \<and> (c, Inr rd) = (?dl, Inl e) \<and> post = []"
        using n split_unique [where P = "\<lambda>e. is_download (fst e)"] by blast
      then show "\<exists>rc post'. post = (?chk, rc) # post'" by simp
    qed
  next
    case (missing v rc w)
    show ?thesis unfolding checked_def
    proof (intro allI impI)
      fix pre c rd post
      assume a: "history (snd (step2_download x tool ow name br base st)) = pre @ (c, Inr rd) # post
          \<and> is_download c"
      with missing have "history st @ (?dl, Inr v) # [(?chk, rc)] = pre @ (c, Inr rd) # post"
        by simp
      moreover have "list_all (\<lambda>e. \<not> is_download (fst e)) [(?chk, rc)]" by simp
      moreover have "is_download (fst (c, Inr rd :: command_result promise))" using a by simp
      ultimately have "pre = history st \<and> (c, Inr rd) = (?dl, Inr v) \<and> post = [(?chk, rc)]"
        using n split_unique [where P = "\<lambda>e. is_download (fst e)"] by blast
      then show "\<exists>rc post'. post = (?chk, rc) # post'" by simp
    qed
  next
    case (present v rc w)
    let ?st = "adv st w [(?dl, Inr v), (?chk, rc)]
              (Info (''Using '' @ tool @ '' for download...'') # Step 2 ''Downloading repository...''
               # chunks v)"
    obtain h where h: "history (snd (step3 x (base @ ''/repo.tar.gz'') base name br ?st))
        = history ?st @ h" "no_download h"
      using step3_grows by blast
    show ?thesis unfolding checked_def
    proof (intro allI impI)
      fix pre c rd post
      assume a: "history (snd (step2_download x tool ow name br base st)) = pre @ (c, Inr rd) # post
          \<and> is_download c"
      with present h have "history st @ (?dl, Inr v) # ((?chk, rc) # h) = pre @ (c, Inr rd) # post"
        by simp
      moreover have "list_all (\<lambda>e. \<not> is_download (fst e)) ((?chk, rc) # h)"
        using h(2) by (simp add: no_download_def)
      moreover have "is_download (fst (c, Inr rd :: command_result promise))" using a by simp
      ultimately have "pre = history st \<and> (c, Inr rd) = (?dl, Inr v) \<and> post = (?chk, rc) # h"
        using n split_unique [where P = "\<lambda>e. is_download (fst e)"] by blast
      then show "\<exists>rc post'. post = (?chk, rc) # post'" by simp
    qed
  qed
qed

lemma no_download_checked:
  "no_download (history (snd res)) \<Longrightarrow> checked ap res"
  unfolding checked_def no_download_def
  by (metis fst_conv no_split)

lemma step2_checked:
  assumes "no_download (history st)"
  shows "checked (base @ ''/repo.tar.gz'') (step2 x ow name br base st)"
proof (cases rule: step2_cases [of x ow name br base st])
  case (curl r w)
  have "no_download (history (adv st w [(''which curl'', r)]
      [Step 2 ''Checking for download tools...'']))"
    using assms by (simp add: no_download_def)
  with curl show ?thesis by (simp add: step2_download_checked)
next
  case (wget r r' w)
  have "no_download (history (adv st w [(''which curl'', r), (''which wget'', r')]
      [Step 2 ''Checking for download tools...'']))"
    using assms by (simp add: no_download_def)
  with wget show ?thesis by (simp add: step2_download_checked)
next
  case (none r r' w)
  with assms show ?thesis by (intro no_download_checked) (simp add: no_download_def)
qed

lemma step1_checked:
  assumes "no_download (history st)"
  shows "checked (base @ ''/repo.tar.gz'') (step1 x ow name br base st)"
proof (cases rule: step1_cases [of x ow name br base st])
  case (rejected e w)
  with assms show ?thesis by (intro no_download_checked) (simp add: no_download_def)
next
  case (resolved v w)
  have "no_download (history (adv st w [(generateMkdirCommand base, Inr v)]
      [Step 1 ''Creating directory...'']))"
    using assms by (simp add: no_download_def)
  with resolved show ?thesis by (simp add: step2_checked)
qed

lemma run_checked:
  "checked (archivePath_of body)
     (step1 x (repoOwner_of body) (repoName_of body) (repoBranch_of body)
        (hubBasePath_of body) (fresh w))"
  unfolding archivePath_of_def by (rule step1_checked) (simp add: no_download_def fresh_def)

section \<open>A missing manifest skips the install command\<close>

lemma not_probe_not_test_f:
  "\<not> is_probe c \<Longrightarrow> c \<noteq> test_f p" "\<not> is_probe c \<Longrightarrow> test_f p \<noteq> c"
  using probe_texts(3) by blast+

lemma cd_not_test_f [simp]:
  "runCmd d \<noteq> test_f p" "installCmd d \<noteq> test_f p"
  "test_f p \<noteq> runCmd d" "test_f p \<noteq> installCmd d"
  by (simp_all add: not_probe_not_test_f)

lemma archive_not_package_json [simp]:
  "base @ ''/repo.tar.gz'' \<noteq> base @ ''/'' @ name @ ''-'' @ br @ ''/package.json''"
  using package_json_not_archive [of base name br] by (rule not_sym)

lemma early_not_install: "early dir h \<Longrightarrow> installCmd dir \<notin> fst ` set h"
proof
  assume e: "early dir h" and "installCmd dir \<in> fst ` set h"
  then obtain entry where "entry \<in> set h" "fst entry = installCmd dir" by force
  with e have "\<not> is_cd (fst entry)" unfolding early_def list_all_iff by blast
  with \<open>fst entry = installCmd dir\<close> show False by simp
qed

lemma early_no_manifest:
  "early dir h \<Longrightarrow> h = pre @ (test_f (dir @ ''/package.json''), rc) # post \<Longrightarrow> False"
  by (simp add: early_def)

lemma early_skipped: "early dir (history (snd res)) \<Longrightarrow> skipped dir res"
  unfolding skipped_def using early_no_manifest by blast

lemma manifest_split:
  assumes "h = H @ (test_f (dir @ ''/package.json''), rc) # ys"
    and "early dir H"
    and "list_all (\<lambda>e. fst e \<noteq> test_f (dir @ ''/package.json'')) ys"
    and "h = pre @ (test_f (dir @ ''/package.json''), rc') # post"
  shows "pre = H \<and> rc' = rc \<and> post = ys"
proof -
  have "H @ (test_f (dir @ ''/package.json''), rc) # ys
        = pre @ (test_f (dir @ ''/package.json''), rc') # post"
    using assms(1,4) by simp
  moreover have "list_all (\<lambda>e. \<not> fst e = test_f (dir @ ''/package.json'')) H"
    using assms(2) by (simp add: early_def list_all_iff)
  moreover have "list_all (\<lambda>e. \<not> fst e = test_f (dir @ ''/package.json'')) ys"
    using assms(3) by simp
  moreover have "fst (test_f (dir @ ''/package.json''), rc') = test_f (dir @ ''/package.json'')"
    by simp
  ultimately have "pre = H \<and> (test_f (dir @ ''/package.json''), rc')
      = (test_f (dir @ ''/package.json''), rc) \<and> post = ys"
    by (rule split_unique [where P = "\<lambda>e. fst e = test_f (dir @ ''/package.json'')"])
  then show ?thesis by simp
qed

lemma step4_skipped:
  assumes "early dir (history st)"
  shows "skipped dir (step4 x dir st)"
proof -
  let ?pkg = "test_f (dir @ ''/package.json'')"
  have ni: "installCmd dir \<notin> fst ` set (history st)"
    using assms by (rule early_not_install)
  show ?thesis
  proof (cases rule: step4_cases [of x dir st])
    case (skip rc w)
    let ?st = "adv st w [(?pkg, rc)]
           [Step 4 ''Installing dependencies...'',
            Info ''No package.json found, skipping dependency installation'']"
    show ?thesis
    proof (cases rule: step5_cases [of x dir ?st])
      case (rejected e w')
      with skip have r: "step4 x dir st =
          (Inl e, adv st w' [(?pkg, rc), (runCmd dir, Inl e)]
             [Step 4 ''Installing dependencies...'',
              Info ''No package.json found, skipping dependency installation'',
              Step 5 ''Running hub-setup.js...''])"
        by simp
      show ?thesis unfolding skipped_def
      proof (intro allI impI)
        fix pre rc' post
        assume "history (snd (step4 x dir st)) = pre @ (?pkg, rc') # post \<and> \<not> reports_exists rc'"
        with r have "history st @ (?pkg, rc) # [(runCmd dir, Inl e)] = pre @ (?pkg, rc') # post"
          by simp
        with assms have "pre = history st \<and> rc' = rc \<and> post = [(runCmd dir, Inl e)]"
          by (intro manifest_split [of _ _ dir]) simp_all
        with r ni show "installCmd dir \<notin> fst ` set (history (snd (step4 x dir st)))
          \<and> (\<exists>rr. post = [(runCmd dir, rr)] \<and> fst (step4 x dir st) = map_sum id (\<lambda>_. ()) rr)
          \<and> (\<exists>es es'. sink (snd (step4 x dir st)) =
                es @ [Step 4 ''Installing dependencies...'',
                      Info ''No package.json found, skipping dependency installation'',
                      Step 5 ''Running hub-setup.js...''] @ es')"
          by (auto intro: exI [of _ "sink st"])
      qed
    next
      case (resolved v w')
      with skip have r: "step4 x dir st =
          (Inr (), res_end (adv st w' [(?pkg, rc), (runCmd dir, Inr v)]
             ([Step 4 ''Installing dependencies...'',
              Info ''No package.json found, skipping dependency installation'',
              Step 5 ''Running hub-setup.js...'']
              @ chunks v @ [Success ''Setup completed successfully!''])))"
        by simp
      show ?thesis unfolding skipped_def
      proof (intro allI impI)
        fix pre rc' post
        assume "history (snd (step4 x dir st)) = pre @ (?pkg, rc') # post \<and> \<not> reports_exists rc'"
        with r have "history st @ (?pkg, rc) # [(runCmd dir, Inr v)] = pre @ (?pkg, rc') # post"
          by simp
        with assms have "pre = history st \<and> rc' = rc \<and> post = [(runCmd dir, Inr v)]"
          by (intro manifest_split [of _ _ dir]) simp_all
        with r ni show "installCmd dir \<notin> fst ` set (history (snd (step4 x dir st)))
          \<and> (\<exists>rr. post = [(runCmd dir, rr)] \<and> fst (step4 x dir st) = map_sum id (\<lambda>_. ()) rr)
          \<and> (\<exists>es es'. sink (snd (step4 x dir st)) =
                es @ [Step 4 ''Installing dependencies...'',
                      Info ''No package.json found, skipping dependency installation'',
                      Step 5 ''Running hub-setup.js...''] @ es')"
          by (auto intro: exI [of _ "sink st"])
      qed
    qed
  next
    case (rejected rc e w)
    show ?thesis unfolding skipped_def
    proof (intro allI impI)
      fix pre rc' post
      assume a: "history (snd (step4 x dir st)) = pre @ (?pkg, rc') # post \<and> \<not> reports_exists rc'"
      with rejected have "history st @ (?pkg, rc) # [(installCmd dir, Inl e)]
          = pre @ (?pkg, rc') # post"
        by simp
      with assms have "pre = history st \<and> rc' = rc \<and> post = [(installCmd dir, Inl e)]"
        by (intro manifest_split [of _ _ dir]) simp_all
      with a rejected(1) have False by simp
      then show "installCmd dir \<notin> fst ` set (history (snd (step4 x dir st)))
          \<and> (\<exists>rr. post = [(runCmd dir, rr)] \<and> fst (step4 x dir st) = map_sum id (\<lambda>_. ()) rr)
          \<and> (\<exists>es es'. sink (snd (step4 x dir st)) =
                es @ [Step 4 ''Installing dependencies...'',
                      Info ''No package.json found, skipping dependency installation'',
                      Step 5 ''Running hub-setup.js...''] @ es')" ..
    qed
  next
    case (resolved rc v w)
    let ?st = "adv st w [(?pkg, rc), (installCmd dir, Inr v)]
           (Step 4 ''Installing dependencies...''
            # Info ''Found package.json, installing dependencies...''
            # chunks v @ [Info ''Dependencies installed successfully''])"
    obtain rr where h: "history (snd (step5 x dir ?st)) = history ?st @ [(runCmd dir, rr)]"
      by (cases rule: step5_cases [of x dir ?st]) simp_all
    show ?thesis unfolding skipped_def
    proof (intro allI impI)
      fix pre rc' post
      assume a: "history (snd (step4 x dir st)) = pre @ (?pkg, rc') # post \<and> \<not> reports_exists rc'"
      with resolved h have "history st @ (?pkg, rc) # [(installCmd dir, Inr v), (runCmd dir, rr)]
          = pre @ (?pkg, rc') # post"
        by simp
      with assms have "pre = history st \<and> rc' = rc
          \<and> post = [(installCmd dir, Inr v), (runCmd dir, rr)]"
        by (intro manifest_split [of _ _ dir]) simp_all
      with a resolved(1) have False by simp
      then show "installCmd dir \<notin> fst ` set (history (snd (step4 x dir st)))
          \<and> (\<exists>rr. post = [(runCmd dir, rr)] \<and> fst (step4 x dir st) = map_sum id (\<lambda>_. ()) rr)
          \<and> (\<exists>es es'. sink (snd (step4 x dir st)) =
                es @ [Step 4 ''Installing dependencies...'',
                      Info ''No package.json found, skipping dependency installation'',
                      Step 5 ''Running hub-setup.js...''] @ es')" ..
    qed
  qed
qed

lemma step3_skipped:
  assumes "early (base @ ''/'' @ name @ ''-'' @ br) (history st)"
  shows "skipped (base @ ''/'' @ name @ ''-'' @ br) (step3 x a base name br st)"
proof (cases rule: step3_cases [of x a base name br st])
  case (rejected e w)
  with assms show ?thesis
    by (intro early_skipped) (simp add: early_def not_probe_not_test_f)
next
  case (resolved v w)
  have "skipped (base @ ''/'' @ name @ ''-'' @ br)
      (step4 x (base @ ''/'' @ name @ ''-'' @ br)
         (adv st w [(generateExtractCommand a base, Inr v)]
            (Step 3 ''Extracting archive...'' # chunks v)))"
    by (rule step4_skipped) (use assms in \<open>simp add: early_def not_probe_not_test_f\<close>)
  with resolved show ?thesis by simp
qed

lemma step2_download_skipped:
  assumes "early (base @ ''/'' @ name @ ''-'' @ br) (history st)"
  shows "skipped (base @ ''/'' @ name @ ''-'' @ br) (step2_download x tool ow name br base st)"
proof (cases rule: step2_download_cases [of x tool ow name br base st])
  case (rejected e w)
  with assms show ?thesis
    by (intro early_skipped) (simp add: early_def not_probe_not_test_f)
next
  case (missing v rc w)
  with assms show ?thesis
    by (intro early_skipped) (simp add: early_def not_probe_not_test_f)
next
  case (present v rc w)
  have "skipped (base @ ''/'' @ name @ ''-'' @ br)
      (step3 x (base @ ''/repo.tar.gz'') base name br
        (adv st w
            [(generateDownloadCommand (getBranchArchiveUrl ow name br) (base @ ''/repo.tar.gz'') tool,
              Inr v),
             (test_f (base @ ''/repo.tar.gz''), rc)]
            (Info (''Using '' @ tool @ '' for download...'') # Step 2 ''Downloading repository...''
             # chunks v)))"
    by (rule step3_skipped) (use assms in \<open>simp add: early_def not_probe_not_test_f\<close>)
  with present show ?thesis by simp
qed

lemma step2_skipped:
  assumes "early (base @ ''/'' @ name @ ''-'' @ br) (history st)"
  shows "skipped (base @ ''/'' @ name @ ''-'' @ br) (step2 x ow name br base st)"
proof (cases rule: step2_cases [of x ow name br base st])
  case (curl r w)
  have "skipped (base @ ''/'' @ name @ ''-'' @ br)
      (step2_download x ''curl'' ow name br base
         (adv st w [(''which curl'', r)] [Step 2 ''Checking for download tools...'']))"
    by (rule step2_download_skipped) (use assms in \<open>simp add: early_def\<close>)
  with curl show ?thesis by simp
next
  case (wget r r' w)
  have "skipped (base @ ''/'' @ name @ ''-'' @ br)
      (step2_download x ''wget'' ow name br base
         (adv st w [(''which curl'', r), (''which wget'', r')]
            [Step 2 ''Checking for download tools...'']))"
    by (rule step2_download_skipped) (use assms in \<open>simp add: early_def\<close>)
  with wget show ?thesis by simp
next
  case (none r r' w)
  with assms show ?thesis by (intro early_skipped) (simp add: early_def)
qed

lemma step1_skipped:
  assumes "early (base @ ''/'' @ name @ ''-'' @ br) (history st)"
  shows "skipped (base @ ''/'' @ name @ ''-'' @ br) (step1 x ow name br base st)"
proof (cases rule: step1_cases [of x ow name br base st])
  case (rejected e w)
  with assms show ?thesis
    by (intro early_skipped) (simp add: early_def not_probe_not_test_f)
next
  case (resolved v w)
  have "skipped (base @ ''/'' @ name @ ''-'' @ br)
      (step2 x ow name br base
         (adv st w [(generateMkdirCommand base, Inr v)] [Step 1 ''Creating directory...'']))"
    by (rule step2_skipped) (use assms in \<open>simp add: early_def not_probe_not_test_f\<close>)
  with resolved show ?thesis by simp
qed

lemma run_skipped:
  "skipped (extractedDir_of body)
     (step1 x (repoOwner_of body) (repoName_of body) (repoBranch_of body)
        (hubBasePath_of body) (fresh w))"
  unfolding extractedDir_of_def by (rule step1_skipped) (simp add: early_def fresh_def)

section \<open>The handlers as a whole\<close>

lemma download_and_run_history:
  "history (download_and_run x body st) =
   history (snd (step1 x (repoOwner_of body) (repoName_of body) (repoBranch_of body)
        (hubBasePath_of body) st))"
  by (simp add: download_and_run_def res_write_def split: prod.splits sum.splits)

lemma download_and_run_sink:
  "sink (download_and_run x body st) =
   (case step1 x (repoOwner_of body) (repoName_of body) (repoBranch_of body)
        (hubBasePath_of body) st of
      (Inr _, st1) \<Rightarrow> sink st1
    | (Inl e, st1) \<Rightarrow> sink st1 @ [Error e])"
  by (simp add: download_and_run_def res_write_def split: prod.splits sum.splits)

lemma download_and_run_ended:
  "ended (download_and_run x body st) =
   (case step1 x (repoOwner_of body) (repoName_of body) (repoBranch_of body)
        (hubBasePath_of body) st of
      (Inr _, st1) \<Rightarrow> ended st1
    | (Inl e, st1) \<Rightarrow> True)"
  by (simp add: download_and_run_def res_write_def split: prod.splits sum.splits)

text \<open>
  Claim C7. In every run of download-and-run and of execute-stream, started on a new
  response, exactly one of the events written is an \<open>Error\<close>, \<open>Success\<close> or \<open>Done\<close> event,
  it is the last event written, and the response is ended.
\<close>

theorem terminal_event_is_last:
  "filter is_terminal (sink (download_and_run x body (fresh w)))
     = [last (sink (download_and_run x body (fresh w)))]
   \<and> ended (download_and_run x body (fresh w))
   \<and> filter is_terminal (sink (execute_stream x command cwd (fresh w)))
     = [last (sink (execute_stream x command cwd (fresh w)))]
   \<and> ended (execute_stream x command cwd (fresh w))"
proof -
  obtain r st where e: "step1 x (repoOwner_of body) (repoName_of body) (repoBranch_of body)
             (hubBasePath_of body) (fresh w) = (r, st)" by force
  with run_settled [of body x w] have s: "settled (archivePath_of body) (r, st)" by simp
  have a: "filter is_terminal (sink (download_and_run x body (fresh w)))
     = [last (sink (download_and_run x body (fresh w)))]
   \<and> ended (download_and_run x body (fresh w))"
    using s e by (cases r) (simp_all add: download_and_run_sink download_and_run_ended settled_def)
  obtain r' w' where x: "x command cwd (remote (adv (fresh w) w [] [Connected ''Connected to hub''])) = (r', w')"
    by force
  have b: "filter is_terminal (sink (execute_stream x command cwd (fresh w)))
     = [last (sink (execute_stream x command cwd (fresh w)))]
   \<and> ended (execute_stream x command cwd (fresh w))"
  proof (cases r')
    case (Inl m)
    with x stream_rejected [of x command cwd "adv (fresh w) w [] [Connected ''Connected to hub'']" m w']
    show ?thesis
      by (simp add: execute_stream_def res_write_adv [of _ "fresh w"] fresh_def [of w, symmetric])
         (simp add: fresh_def)
  next
    case (Inr v)
    with x stream_resolved [of x command cwd "adv (fresh w) w [] [Connected ''Connected to hub'']" v w']
    show ?thesis
      by (simp add: execute_stream_def res_write_adv [of _ "fresh w"] fresh_def [of w, symmetric])
         (simp add: fresh_def)
  qed
  from a b show ?thesis by simp
qed

section \<open>The exit codes of the stage commands are not read\<close>

lemma recoded_simps [simp]:
  "recoded k (Inl e) = Inl e"
  "recoded k (Inr v) = Inr (v\<lparr>code := k\<rparr>)"
  "reports_exists (recoded k r) = reports_exists r"
  "without_code (c, recoded k r) = without_code (c, r)"
  "isl (recoded k r) = isl r"
  by (simp_all add: recoded_def reports_exists_def without_code_def split: sum.splits)

lemma chunks_code [simp]: "chunks (v\<lparr>code := k\<rparr>) = chunks v"
  by (simp add: chunks_def)

lemma without_code_code [simp]: "without_code (c, Inr (v\<lparr>code := k\<rparr>)) = without_code (c, Inr v)"
  by (simp add: without_code_def)

lemma with_exit_codes_which [simp]:
  "with_exit_codes f x ''which curl'' cwd w = x ''which curl'' cwd w"
  "with_exit_codes f x ''which wget'' cwd w = x ''which wget'' cwd w"
  by (simp_all add: with_exit_codes_def)


lemma not_which [simp]:
  "generateMkdirCommand p \<noteq> ''which curl''" "generateMkdirCommand p \<noteq> ''which wget''"
  "generateDownloadCommand u a t \<noteq> ''which curl''"
  "generateDownloadCommand u a t \<noteq> ''which wget''"
  "generateExtractCommand a b \<noteq> ''which curl''" "generateExtractCommand a b \<noteq> ''which wget''"
  "installCmd d \<noteq> ''which curl''" "installCmd d \<noteq> ''which wget''"
  "runCmd d \<noteq> ''which curl''" "runCmd d \<noteq> ''which wget''"
  by (simp_all add: test_f_def generateMkdirCommand_def generateDownloadCommand_def
      generateCurlCommand_def generateWgetCommand_def generateExtractCommand_def installCmd_def
      runCmd_def)













lemmas run_defs =
  download_and_run_def step1_def step2_def step2_download_def step3_def step4_def
  step5_def detectDownloadTool_def executeCommand_def executeCommandWithStream_def
  execCommand_def call_if_def write_stdout_def write_stderr_def res_write_def res_end_def
  fresh_def truthy_def trim_def white_space_def tool_present_def reports_exists_def
  hub_with_def capable_hub_def default_request_def quiet_result_def
  repoOwner_of_def repoName_of_def repoBranch_of_def hubBasePath_of_def or_default_def
  archivePath_of_def extractedDir_of_def downloadCmd_of_def
  getDefaultRepoConfig_def getBranchArchiveUrl_def generateDownloadCommand_def
  generateCurlCommand_def generateWgetCommand_def generateExtractCommand_def
  generateMkdirCommand_def test_f_def installCmd_def runCmd_def Let_def



section \<open>The archive check and the conditional install\<close>

lemma fatal_is_last:
  assumes "xs = A @ a # B" "list_all P (butlast xs)" "\<not> P a"
  shows "B = []"
proof (rule ccontr)
  assume "B \<noteq> []"
  then have "butlast xs = A @ a # butlast B" using assms(1) by (simp add: butlast_append)
  with assms(2) have "P a" by simp
  with assms(3) show False by simp
qed

text \<open>
  Claim C3. In every run of download-and-run, a download command that resolved, whatever
  its exit code, is followed at once by the check \<^verbatim>\<open>test -f\<close> of the archive path; and when
  that check does not report the file, nothing more is run and the run ends with the one
  error event \<^verbatim>\<open>Download failed - archive file not found after download\<close>.
\<close>

theorem download_then_archive_check:
  assumes "out = download_and_run x body (fresh w)"
    and "history out = pre @ (c, Inr rd) # post"
    and "c = downloadCmd_of body ''curl'' \<or> c = downloadCmd_of body ''wget''"
  shows "\<exists>rc post'. post = (test_f (archivePath_of body), rc) # post'
     \<and> (\<not> reports_exists rc \<longrightarrow>
          post' = []
          \<and> last (sink out) = Error ''Download failed - archive file not found after download''
          \<and> filter is_terminal (sink out)
              = [Error ''Download failed - archive file not found after download''])"
proof -
  let ?ap = "archivePath_of body"
  obtain r st where e: "step1 x (repoOwner_of body) (repoName_of body) (repoBranch_of body)
             (hubBasePath_of body) (fresh w) = (r, st)" by force
  have h: "history out = history st"
    using assms(1) e by (simp add: download_and_run_history)
  have d: "is_download c" using assms(3) by (auto simp: downloadCmd_of_def)
  have ck: "checked ?ap (r, st)" using run_checked [of body x w] e by simp
  have "history (snd (r, st)) = pre @ (c, Inr rd) # post \<and> is_download c"
    using h assms(2) d by simp
  from ck [unfolded checked_def, rule_format, OF this]
  obtain rc post' where p: "post = (test_f ?ap, rc) # post'" by blast
  have s: "settled ?ap (r, st)" using run_settled [of body x w] e by simp
  have "post' = [] \<and> last (sink out) = Error ''Download failed - archive file not found after download''
          \<and> filter is_terminal (sink out)
              = [Error ''Download failed - archive file not found after download'']"
    if n: "\<not> reports_exists rc"
  proof (cases r)
    case (Inr u)
    with s have a: "list_all (\<lambda>e. \<not> fatal ?ap e) (history st)" by (simp add: settled_def)
    have "history st = pre @ (c, Inr rd) # (test_f ?ap, rc) # post'"
      using h assms(2) p by simp
    from a [unfolded this] have "\<not> fatal ?ap (test_f ?ap, rc)" by simp
    with n show ?thesis by simp
  next
    case (Inl m)
    with s have b: "list_all (\<lambda>e. \<not> fatal ?ap e) (butlast (history st))"
      and l: "m = failure_message ?ap (last (history st))"
      and t: "filter is_terminal (sink st) = []"
      by (simp_all add: settled_def)
    have hh: "history st = (pre @ [(c, Inr rd)]) @ (test_f ?ap, rc) # post'"
      using h assms(2) p by simp
    have "\<not> \<not> fatal ?ap (test_f ?ap, rc)" using n by simp
    with hh b have e': "post' = []" by (rule fatal_is_last)
    with hh l have "m = ''Download failed - archive file not found after download''" by simp
    with e' t e Inl assms(1) show ?thesis by (simp add: download_and_run_sink)
  qed
  with p show ?thesis by blast
qed

text \<open>
  Claim C6. In every run of download-and-run whose check for \<^verbatim>\<open>package.json\<close> in the
  extracted directory does not report the file, the install command is never handed to the
  transport; the command after the check is the setup script, and it is the last; the events
  contain step 4, the info event of the skip and step 5 in a row; and the run ends with the
  success event when the setup script's command resolves, with that command's error
  otherwise.
\<close>

theorem absent_manifest_skips_install:
  assumes "out = download_and_run x body (fresh w)"
    and "history out = pre @ (test_f (extractedDir_of body @ ''/package.json''), rc) # post"
    and "\<not> reports_exists rc"
  shows "installCmd (extractedDir_of body) \<notin> fst ` set (history out)
     \<and> (\<exists>rr. post = [(runCmd (extractedDir_of body), rr)]
            \<and> last (sink out) =
                (case rr of Inl e \<Rightarrow> Error e
                          | Inr _ \<Rightarrow> Success ''Setup completed successfully!''))
     \<and> (\<exists>es es'. sink out =
            es @ [Step 4 ''Installing dependencies...'',
                  Info ''No package.json found, skipping dependency installation'',
                  Step 5 ''Running hub-setup.js...''] @ es')"
proof -
  let ?dir = "extractedDir_of body"
  obtain r st where e: "step1 x (repoOwner_of body) (repoName_of body) (repoBranch_of body)
             (hubBasePath_of body) (fresh w) = (r, st)" by force
  have h: "history out = history st"
    using assms(1) e by (simp add: download_and_run_history)
  have sk: "skipped ?dir (r, st)" using run_skipped [of body x w] e by simp
  have "history (snd (r, st)) = pre @ (test_f (?dir @ ''/package.json''), rc) # post
      \<and> \<not> reports_exists rc"
    using h assms(2,3) by simp
  from sk [unfolded skipped_def, rule_format, OF this] obtain rr es es' where
    i: "installCmd ?dir \<notin> fst ` set (history st)"
    and p: "post = [(runCmd ?dir, rr)]" and r: "r = map_sum id (\<lambda>_. ()) rr"
    and k: "sink st = es @ [Step 4 ''Installing dependencies...'',
                  Info ''No package.json found, skipping dependency installation'',
                  Step 5 ''Running hub-setup.js...''] @ es'"
    by auto
  have s: "settled (archivePath_of body) (r, st)" using run_settled [of body x w] e by simp
  show ?thesis
  proof (cases rr)
    case (Inl m)
    with r e assms(1) have o: "sink out = sink st @ [Error m]"
      by (simp add: download_and_run_sink)
    with k have "sink out = es @ [Step 4 ''Installing dependencies...'',
                  Info ''No package.json found, skipping dependency installation'',
                  Step 5 ''Running hub-setup.js...''] @ (es' @ [Error m])" by simp
    moreover have "post = [(runCmd ?dir, rr)] \<and> last (sink out) =
                (case rr of Inl e \<Rightarrow> Error e
                          | Inr _ \<Rightarrow> Success ''Setup completed successfully!'')"
      using p o Inl by simp
    ultimately show ?thesis using i h by auto
  next
    case (Inr v)
    with r e assms(1) have o: "sink out = sink st" by (simp add: download_and_run_sink)
    from Inr r s have "last (sink st) = Success ''Setup completed successfully!''"
      by (simp add: settled_def)
    with p o Inr have "post = [(runCmd ?dir, rr)] \<and> last (sink out) =
                (case rr of Inl e \<Rightarrow> Error e
                          | Inr _ \<Rightarrow> Success ''Setup completed successfully!'')"
      by simp
    moreover have "sink out = es @ [Step 4 ''Installing dependencies...'',
                  Info ''No package.json found, skipping dependency installation'',
                  Step 5 ''Running hub-setup.js...''] @ es'" using o k by simp
    ultimately show ?thesis using i h by auto
  qed
qed


text \<open>
  A hub whose download tool exits with code 0 and leaves no file (an error page after a
  redirect).
\<close>

theorem download_then_archive_check_witness:
  \<open>history (download_and_run
      (hub_with ''test -f "/data/hub-setup/repo.tar.gz" && echo "exists"''
         (Inr \<lparr>stdout = [], stderr = [], code = Some 1\<rparr>))
      default_request (fresh ())) =
     [(''mkdir -p "/data/hub-setup"'', Inr quiet_result),
      (''which curl'', Inr \<lparr>stdout = ''/usr/bin/curl'', stderr = [], code = Some 0\<rparr>),
      (''curl -L "https://github.com/rahul-keus/media-hub-setup/archive/refs/heads/main.tar.gz" -o "/data/hub-setup/repo.tar.gz"'',
       Inr \<lparr>stdout = [], stderr = [], code = Some 0\<rparr>),
      (''test -f "/data/hub-setup/repo.tar.gz" && echo "exists"'',
       Inr \<lparr>stdout = [], stderr = [], code = Some 1\<rparr>)]
   \<and> last (sink (download_and_run
      (hub_with ''test -f "/data/hub-setup/repo.tar.gz" && echo "exists"''
         (Inr \<lparr>stdout = [], stderr = [], code = Some 1\<rparr>))
      default_request (fresh ())))
     = Error ''Download failed - archive file not found after download''
   \<and> filter is_terminal (sink (download_and_run
      (hub_with ''test -f "/data/hub-setup/repo.tar.gz" && echo "exists"''
         (Inr \<lparr>stdout = [], stderr = [], code = Some 1\<rparr>))
      default_request (fresh ())))
     = [Error ''Download failed - archive file not found after download'']\<close>
proof -
  let ?out = \<open>download_and_run
      (hub_with ''test -f "/data/hub-setup/repo.tar.gz" && echo "exists"''
         (Inr \<lparr>stdout = [], stderr = [], code = Some 1\<rparr>))
      default_request (fresh ())\<close>
  let ?curl = \<open>''curl -L "https://github.com/rahul-keus/media-hub-setup/archive/refs/heads/main.tar.gz" -o "/data/hub-setup/repo.tar.gz"''\<close>
  let ?chk = \<open>''test -f "/data/hub-setup/repo.tar.gz" && echo "exists"''\<close>
  let ?missing = "Inr \<lparr>stdout = [], stderr = [], code = Some 1\<rparr> :: command_result promise"
  have h: \<open>history ?out =
     [(''mkdir -p "/data/hub-setup"'', Inr quiet_result),
      (''which curl'', Inr \<lparr>stdout = ''/usr/bin/curl'', stderr = [], code = Some 0\<rparr>)]
     @ (?curl, Inr \<lparr>stdout = [], stderr = [], code = Some 0\<rparr>) # [(?chk, ?missing)]\<close>
    by (simp add: run_defs)
  have c: "?curl = downloadCmd_of default_request ''curl'' \<or>
           ?curl = downloadCmd_of default_request ''wget''"
    by (simp add: run_defs)
  have t: "test_f (archivePath_of default_request) = ?chk" by (simp add: run_defs)
  have n: "\<not> reports_exists ?missing" by (simp add: reports_exists_def)
  from download_then_archive_check [OF refl h c] t n
  have "last (sink ?out) = Error ''Download failed - archive file not found after download''
     \<and> filter is_terminal (sink ?out)
         = [Error ''Download failed - archive file not found after download'']"
    by auto
  with h show ?thesis by (simp add: quiet_result_def)
qed

text \<open>A hub whose extracted directory has no \<^verbatim>\<open>package.json\<close>.\<close>

theorem absent_manifest_skips_install_witness:
  \<open>map fst (history (download_and_run
      (hub_with ''test -f "/data/hub-setup/media-hub-setup-main/package.json" && echo "exists"''
         (Inr \<lparr>stdout = [], stderr = [], code = Some 1\<rparr>))
      default_request (fresh ()))) =
     [''mkdir -p "/data/hub-setup"'',
      ''which curl'',
      ''curl -L "https://github.com/rahul-keus/media-hub-setup/archive/refs/heads/main.tar.gz" -o "/data/hub-setup/repo.tar.gz"'',
      ''test -f "/data/hub-setup/repo.tar.gz" && echo "exists"'',
      ''tar -xzf "/data/hub-setup/repo.tar.gz" -C "/data/hub-setup"'',
      ''test -f "/data/hub-setup/media-hub-setup-main/package.json" && echo "exists"'',
      ''cd "/data/hub-setup/media-hub-setup-main" && node hub-setup.js'']
   \<and> installCmd (extractedDir_of default_request)
       \<notin> fst ` set (history (download_and_run
      (hub_with ''test -f "/data/hub-setup/media-hub-setup-main/package.json" && echo "exists"''
         (Inr \<lparr>stdout = [], stderr = [], code = Some 1\<rparr>))
      default_request (fresh ())))
   \<and> last (sink (download_and_run
      (hub_with ''test -f "/data/hub-setup/media-hub-setup-main/package.json" && echo "exists"''
         (Inr \<lparr>stdout = [], stderr = [], code = Some 1\<rparr>))
      default_request (fresh ()))) = Success ''Setup completed successfully!''\<close>
proof -
  let ?out = \<open>download_and_run
      (hub_with ''test -f "/data/hub-setup/media-hub-setup-main/package.json" && echo "exists"''
         (Inr \<lparr>stdout = [], stderr = [], code = Some 1\<rparr>))
      default_request (fresh ())\<close>
  let ?missing = "Inr \<lparr>stdout = [], stderr = [], code = Some 1\<rparr> :: command_result promise"
  have h: \<open>history ?out =
     [(''mkdir -p "/data/hub-setup"'', Inr quiet_result),
      (''which curl'', Inr \<lparr>stdout = ''/usr/bin/curl'', stderr = [], code = Some 0\<rparr>),
      (''curl -L "https://github.com/rahul-keus/media-hub-setup/archive/refs/heads/main.tar.gz" -o "/data/hub-setup/repo.tar.gz"'',
       Inr quiet_result),
      (''test -f "/data/hub-setup/repo.tar.gz" && echo "exists"'',
       Inr \<lparr>stdout = ''exists'', stderr = [], code = Some 0\<rparr>),
      (''tar -xzf "/data/hub-setup/repo.tar.gz" -C "/data/hub-setup"'', Inr quiet_result)]
     @ (test_f (extractedDir_of default_request @ ''/package.json''), ?missing)
     # [(''cd "/data/hub-setup/media-hub-setup-main" && node hub-setup.js'', Inr quiet_result)]\<close>
    by (simp add: run_defs)
  have n: "\<not> reports_exists ?missing" by (simp add: reports_exists_def)
  from absent_manifest_skips_install [OF refl h n]
  have "installCmd (extractedDir_of default_request) \<notin> fst ` set (history ?out)
     \<and> last (sink ?out) = Success ''Setup completed successfully!''"
    by auto
  moreover have "test_f (extractedDir_of default_request @ ''/package.json'')
      = ''test -f \"/data/hub-setup/media-hub-setup-main/package.json\" && echo \"exists\"''"
    by (simp add: run_defs)
  ultimately show ?thesis using h by simp
qed


section \<open>The registry reuses a healthy session\<close>

lemma connect_loop_resolved:
  "connect_loop L this config key retries attempts s = (Inr u, s') \<Longrightarrow> attempts < retries \<Longrightarrow>
   map_of (connections (services s' this)) key = Some (ssh (services s' this))
   \<and> activeConnections s' = activeConnections s"
proof (induction L this config key retries attempts s rule: connect_loop.induct)
  case (1 L this config key retries attempts s)
  obtain r n where c: "lib_connect L (ssh (services s this)) config (net s) = (r, n)" by force
  show ?case
  proof (cases r)
    case None
    with c "1.prems" show ?thesis
      by (auto simp: connect_loop.simps [of L this config key retries attempts s] update_conv' Let_def)
  next
    case (Some message)
    show ?thesis
    proof (cases "attempts + 1 \<ge> retries")
      case True
      with c Some "1.prems" show ?thesis
        by (simp add: connect_loop.simps [of L this config key retries attempts s] Let_def)
    next
      case False
      let ?s1 = "s\<lparr>net := n, calls := calls s @ [Connect_call (ssh (services s this)) config]\<rparr>"
      let ?s2 = "?s1\<lparr>calls := calls ?s1 @ [Timeout_call 2000]\<rparr>"
      from False c Some "1.prems" have
        r: "connect_loop L this config key retries (attempts + 1) ?s2 = (Inr u, s')"
        by (simp add: connect_loop.simps [of L this config key retries attempts s] Let_def)
      have "map_of (connections (services s' this)) key = Some (ssh (services s' this))
         \<and> activeConnections s' = activeConnections ?s2"
        using "1.IH" [OF _ refl _ _ refl _ r] "1.prems"(2) c Some False
        by simp
      then show ?thesis by simp
    qed
  qed
qed


lemma connect_resolved:
  assumes "connect L this ip user pw retries s = (Inr u, s')" "0 < retries"
  shows "map_of (connections (services s' this)) (getConnectionKey ip user)
           = Some (ssh (services s' this))
         \<and> activeConnections s' = activeConnections s"
proof (cases "map_of (connections (services s this)) (getConnectionKey ip user)")
  case None
  with assms(1) have "connect_loop L this
      \<lparr>host = ip, username = user, password = pw, readyTimeout = 20000\<rparr>
      (getConnectionKey ip user) retries 0 s = (Inr u, s')"
    by (simp add: connect_def)
  then show ?thesis using assms(2) by (rule connect_loop_resolved)
next
  case (Some existingSsh)
  show ?thesis
  proof (cases "lib_isConnected L existingSsh (net s)")
    case True
    with Some assms(1) show ?thesis by (auto simp: connect_def)
  next
    case False
    with Some assms(1) have "connect_loop L this
        \<lparr>host = ip, username = user, password = pw, readyTimeout = 20000\<rparr>
        (getConnectionKey ip user) retries 0 s = (Inr u, s')"
      by (simp add: connect_def)
    then show ?thesis using assms(2) by (rule connect_loop_resolved)
  qed
qed

lemma connect_healthy:
  assumes "map_of (connections (services s this)) (getConnectionKey ip user) = Some existingSsh"
    and "lib_isConnected L existingSsh (net s)"
  shows "connect L this ip user pw retries s =
     (Inr (), s\<lparr>services := (services s)(this := (services s this)\<lparr>ssh := existingSsh\<rparr>)\<rparr>)"
  using assms by (simp add: connect_def)

lemma getSSHService_registered:
  "getSSHService ip user pw s = (sshService, s1) \<Longrightarrow>
   map_of (activeConnections s1) (ip @ '':'' @ user) = Some sshService"
  by (auto simp: getSSHService_def new_SSHService_def Let_def update_conv'
      split: option.splits)

lemma getSSHService_existing:
  "map_of (activeConnections s) (ip @ '':'' @ user) = Some sshService \<Longrightarrow>
   getSSHService ip user pw s = (sshService, s)"
  by (simp add: getSSHService_def)

lemma getOrCreate_resolved:
  assumes "getOrCreate L ip user pw s = (Inr sshService, s1)"
  shows "map_of (activeConnections s1) (ip @ '':'' @ user) = Some sshService
       \<and> map_of (connections (services s1 sshService)) (getConnectionKey ip user)
           = Some (ssh (services s1 sshService))"
proof -
  obtain this s0 where g: "getSSHService ip user pw s = (this, s0)" by force
  obtain r s2 where c: "connect L this ip user pw 3 s0 = (r, s2)" by force
  from assms g c obtain u where r: "r = Inr u" and t: "this = sshService" and e: "s2 = s1"
    by (cases r) (simp_all add: getOrCreate_def)
  from connect_resolved [of L this ip user pw 3 s0 u s2] c r
  have "map_of (connections (services s2 this)) (getConnectionKey ip user)
           = Some (ssh (services s2 this))" "activeConnections s2 = activeConnections s0"
    by simp_all
  with getSSHService_registered [OF g] t e show ?thesis by simp
qed

lemma ensure_connected_resolved:
  assumes "ensure_connected L ip user pw s = (Inr sshService, s1)"
  shows "map_of (activeConnections s1) (ip @ '':'' @ user) = Some sshService"
proof -
  obtain this s0 where g: "getSSHService ip user pw s = (this, s0)" by force
  show ?thesis
  proof (cases "isConnected L this s0")
    case True
    with assms g getSSHService_registered [OF g] show ?thesis
      by (simp add: ensure_connected_def)
  next
    case False
    obtain r s2 where c: "connect L this ip user pw 3 s0 = (r, s2)" by force
    from assms g c False obtain u where r: "r = Inr u" and t: "this = sshService" and e: "s2 = s1"
      by (cases r) (simp_all add: ensure_connected_def)
    from connect_resolved [of L this ip user pw 3 s0 u s2] c r
    have "activeConnections s2 = activeConnections s0" by simp
    with getSSHService_registered [OF g] t e show ?thesis by simp
  qed
qed

text \<open>
  Claim C5. When a request for a session of a key has succeeded and the session's probe
  reports it connected, the same request made again returns the same \<^verbatim>\<open>SSHService\<close>
  object and leaves the whole state of the server as it is: no call to the library is
  added, so nothing is authenticated again. For the handler of POST /api/ssh/connect
  (\<open>getOrCreate\<close>) and for the opening of the other handlers (\<open>ensure_connected\<close>).
\<close>

theorem healthy_session_is_reused:
  "(getOrCreate L ip user pw s = (Inr sshService, s1) \<and> isConnected L sshService s1
      \<longrightarrow> getOrCreate L ip user pw s1 = (Inr sshService, s1))
   \<and> (ensure_connected L ip user pw s = (Inr sshService', s1') \<and> isConnected L sshService' s1'
      \<longrightarrow> ensure_connected L ip user pw s1' = (Inr sshService', s1'))"
proof (intro conjI impI)
  assume a: "getOrCreate L ip user pw s = (Inr sshService, s1) \<and> isConnected L sshService s1"
  then have r: "map_of (activeConnections s1) (ip @ '':'' @ user) = Some sshService"
      "map_of (connections (services s1 sshService)) (getConnectionKey ip user)
           = Some (ssh (services s1 sshService))"
    using getOrCreate_resolved [of L ip user pw s sshService s1] by simp_all
  from a have h: "lib_isConnected L (ssh (services s1 sshService)) (net s1)"
    by (simp add: isConnected_def)
  show "getOrCreate L ip user pw s1 = (Inr sshService, s1)"
    by (simp add: getOrCreate_def getSSHService_existing [OF r(1)] connect_healthy [OF r(2) h])
next
  assume a: "ensure_connected L ip user pw s = (Inr sshService', s1')
      \<and> isConnected L sshService' s1'"
  then have "map_of (activeConnections s1') (ip @ '':'' @ user) = Some sshService'"
    using ensure_connected_resolved [of L ip user pw s sshService' s1'] by simp
  with a show "ensure_connected L ip user pw s1' = (Inr sshService', s1')"
    by (simp add: ensure_connected_def getSSHService_existing)
qed

text \<open>
  Claim C10. While a session of the key exists and is connected, the password of a request
  has no influence: two requests that differ in the password alone return the same result
  and the same state, the session returned is the registered one, and no call to the
  library is made.
\<close>

theorem password_ignored_for_healthy_session:
  "(map_of (activeConnections s) (ip @ '':'' @ user) = Some sshService
      \<and> map_of (connections (services s sshService)) (getConnectionKey ip user) = Some existingSsh
      \<and> lib_isConnected L existingSsh (net s)
      \<longrightarrow> getOrCreate L ip user pw1 s = getOrCreate L ip user pw2 s
        \<and> fst (getOrCreate L ip user pw2 s) = Inr sshService
        \<and> calls (snd (getOrCreate L ip user pw2 s)) = calls s)
   \<and> (map_of (activeConnections s') (ip @ '':'' @ user) = Some sshService'
      \<and> isConnected L sshService' s'
      \<longrightarrow> ensure_connected L ip user pw1 s' = ensure_connected L ip user pw2 s'
        \<and> ensure_connected L ip user pw2 s' = (Inr sshService', s'))"
proof (intro conjI impI)
  assume a: "map_of (activeConnections s) (ip @ '':'' @ user) = Some sshService
      \<and> map_of (connections (services s sshService)) (getConnectionKey ip user) = Some existingSsh
      \<and> lib_isConnected L existingSsh (net s)"
  then have g: "\<And>pw. getSSHService ip user pw s = (sshService, s)"
    by (simp add: getSSHService_existing)
  from a have c: "\<And>pw. connect L sshService ip user pw 3 s =
      (Inr (), s\<lparr>services := (services s)
                   (sshService := (services s sshService)\<lparr>ssh := existingSsh\<rparr>)\<rparr>)"
    by (simp add: connect_healthy)
  from g c have r: "\<And>pw. getOrCreate L ip user pw s =
      (Inr sshService, s\<lparr>services := (services s)
                   (sshService := (services s sshService)\<lparr>ssh := existingSsh\<rparr>)\<rparr>)"
    by (simp add: getOrCreate_def)
  show "getOrCreate L ip user pw1 s = getOrCreate L ip user pw2 s" by (simp add: r)
  show "fst (getOrCreate L ip user pw2 s) = Inr sshService" by (simp add: r)
  show "calls (snd (getOrCreate L ip user pw2 s)) = calls s" by (simp add: r)
next
  assume a: "map_of (activeConnections s') (ip @ '':'' @ user) = Some sshService'
      \<and> isConnected L sshService' s'"
  then have r: "\<And>pw. ensure_connected L ip user pw s' = (Inr sshService', s')"
    by (simp add: ensure_connected_def getSSHService_existing)
  show "ensure_connected L ip user pw1 s' = ensure_connected L ip user pw2 s'" by (simp add: r)
  show "ensure_connected L ip user pw2 s' = (Inr sshService', s')" by (rule r)
qed

lemmas registry_defs =
  getOrCreate_def ensure_connected_def getSSHService_def new_SSHService_def connect_def
  connect_loop.simps isConnected_def disconnect_def dispose_def disconnectConnection_def
  api_disconnect_def getConnectionKey_def reliable_def empty_server_def truthy_def Let_def



lemma connected_server_facts:
  "getOrCreate reliable ''10.1.4.215'' ''root'' ''keus123'' empty_server = (Inr 1, connected_server)"
  "ensure_connected reliable ''10.1.4.215'' ''root'' ''keus123'' empty_server
     = (Inr 1, connected_server)"
  "isConnected reliable 1 connected_server"
  "map_of (activeConnections connected_server) (''10.1.4.215'' @ '':'' @ ''root'') = Some 1"
  "map_of (connections (services connected_server 1)) (getConnectionKey ''10.1.4.215'' ''root'')
     = Some 0"
  "lib_isConnected reliable 0 (net connected_server)"
  "ssh (services connected_server 1) = 0"
  "calls connected_server =
     [Connect_call 0 \<lparr>host = ''10.1.4.215'', username = ''root'', password = ''keus123'',
                      readyTimeout = 20000\<rparr>]"
  by (simp_all add: connected_server_def registry_defs)

text \<open>Two requests in a row for the hub: one authentication.\<close>

theorem healthy_session_is_reused_witness:
  "getOrCreate reliable ''10.1.4.215'' ''root'' ''keus123'' connected_server
     = (Inr 1, connected_server)
   \<and> ensure_connected reliable ''10.1.4.215'' ''root'' ''keus123'' connected_server
     = (Inr 1, connected_server)
   \<and> calls connected_server =
     [Connect_call 0 \<lparr>host = ''10.1.4.215'', username = ''root'', password = ''keus123'',
                      readyTimeout = 20000\<rparr>]"
  using healthy_session_is_reused [of reliable "''10.1.4.215''" "''root''" "''keus123''"
      empty_server 1 connected_server 1 connected_server]
    connected_server_facts(1,2,3,8)
  by simp

text \<open>A request with another password while the session is healthy.\<close>

theorem password_ignored_witness:
  "getOrCreate reliable ''10.1.4.215'' ''root'' ''not the password'' connected_server
     = getOrCreate reliable ''10.1.4.215'' ''root'' ''keus123'' connected_server
   \<and> fst (getOrCreate reliable ''10.1.4.215'' ''root'' ''keus123'' connected_server) = Inr 1
   \<and> calls (snd (getOrCreate reliable ''10.1.4.215'' ''root'' ''keus123'' connected_server))
     = calls connected_server
   \<and> ensure_connected reliable ''10.1.4.215'' ''root'' ''not the password'' connected_server
     = (Inr 1, connected_server)"
  using password_ignored_for_healthy_session [of connected_server "''10.1.4.215''" "''root''" 1 0
      reliable "''not the password''" "''keus123''" connected_server 1]
    connected_server_facts(3,4,5,6)
  by simp



section \<open>The retry guard of the scripts\<close>

lemma journal_add_simps [simp]:
  "hub (journal_add e st) = hub st"
  "journal (journal_add e st) = journal st @ [e]"
  by (simp_all add: journal_add_def)

text \<open>The body of \<^verbatim>\<open>retry\<close> with the call of \<^verbatim>\<open>reconnectIfNeeded\<close> as the source has it.\<close>

lemma retry_calls_reconnectIfNeeded:
  "retry L fn retries attempts st =
     (if attempts < retries then
        (case fn (journal_add Op_called st) of
           (Inr v, st1) \<Rightarrow> Some (Inr v, st1)
         | (Inl error, st1) \<Rightarrow>
             (if attempts + 1 \<ge> retries
              then Some (Inl error,
                         journal_add Max_retries_reached
                           (journal_add (Attempt_failed (attempts + 1) error) st1))
              else
                Option.bind
                  (reconnectIfNeeded L
                     (journal_add Hook_called
                        (journal_add (Attempt_failed (attempts + 1) error) st1)))
                  (\<lambda>reconnected.
                     case reconnected of
                       (Inl error2, st2) \<Rightarrow> Some (Inl error2, st2)
                     | (Inr _, st2) \<Rightarrow>
                         retry L fn retries (attempts + 1)
                           (journal_add (Slept RETRY_DELAY_MS) (journal_add Retrying st2)))))
      else Some (Inr Undefined, st))"
  by (subst retry.simps)
     (simp add: reconnectIfNeeded_def connectToRaspberryPi_def split: prod.splits sum.splits)

lemma connect_op_unreachable: "isl (fst (connect_op unreachable s))"
  by (simp add: connect_op_def unreachable_def Let_def)

lemma exec_op_unreachable: "isl (fst (exec_op unreachable command cwd s))"
  by (simp add: exec_op_def unreachable_def)

lemma retry_unreachable:
  assumes "retry L fn retries attempts st = Some y"
  shows "\<not> (L = unreachable \<and> (\<forall>s. isl (fst (fn s))) \<and> Suc attempts < retries)"
proof (rule retry.raw_induct [where P = "\<lambda>L fn retries attempts st y.
    \<not> (L = unreachable \<and> (\<forall>s. isl (fst (fn s))) \<and> Suc attempts < retries)", OF _ assms],
    goal_cases)
  case (1 retry' L fn retries attempts st y)
  show ?case
  proof
    assume a: "L = unreachable \<and> (\<forall>s. isl (fst (fn s))) \<and> Suc attempts < retries"
    obtain r st1 where f: "fn (journal_add Op_called st) = (r, st1)" by force
    with a have "isl r" by (metis fst_conv)
    then obtain error where r: "r = Inl error" by (cases r) simp_all
    have n: "\<not> ssh_isConnected unreachable (hub st1)" by (simp add: unreachable_def)
    from "1"(2) a f r n obtain z where
      "retry' unreachable (connect_op unreachable) RETRY_LIMIT 0
         (journal_add Connection_lost
            (journal_add Hook_called (journal_add (Attempt_failed (attempts + 1) error) st1)))
       = Some z"
      by (auto simp: bind_eq_Some_conv)
    from "1"(1) [OF this] show False
      by (simp add: connect_op_unreachable RETRY_LIMIT_def)
  qed
qed

text \<open>
  Claim C2 at the input where the code breaks it. The hub cannot be reached: the instance
  is not connected and every \<^verbatim>\<open>connect\<close> is rejected. Then \<^verbatim>\<open>connectToRaspberryPi\<close>, and
  \<^verbatim>\<open>execCommandWithRetries\<close> for any command, never return: the first failure enters the
  reconnect check, which starts a new guarded connect, whose first failure enters the
  reconnect check again. No failure is raised after five attempts.
\<close>

theorem retry_never_returns_when_hub_is_down:
  "connectToRaspberryPi unreachable st = None
   \<and> execCommandWithRetries unreachable command cwd st = None"
proof -
  have "retry unreachable (connect_op unreachable) RETRY_LIMIT 0 st = None"
  proof (cases "retry unreachable (connect_op unreachable) RETRY_LIMIT 0 st")
    case (Some y)
    from retry_unreachable [OF this] show ?thesis
      by (simp add: connect_op_unreachable RETRY_LIMIT_def)
  qed simp
  moreover have "retry unreachable (exec_op unreachable command cwd) RETRY_LIMIT 0 st = None"
  proof (cases "retry unreachable (exec_op unreachable command cwd) RETRY_LIMIT 0 st")
    case (Some y)
    from retry_unreachable [OF this] show ?thesis
      by (simp add: exec_op_unreachable RETRY_LIMIT_def)
  qed simp
  ultimately show ?thesis by (simp add: connectToRaspberryPi_def execCommandWithRetries_def)
qed


text \<open>
  While the instance reports itself connected the bound holds: an operation that always
  fails is called \<open>retries\<close> times from a counter at zero, the reconnect check one time
  less, and the last failure is raised.
\<close>

lemma retry_bound_while_connected:
  assumes conn: "\<And>w. ssh_isConnected L w"
    and fails: "\<And>s. \<exists>s'. fn s = (Inl e, s') \<and> journal s' = journal s"
  shows "attempts < retries \<Longrightarrow>
     \<exists>st'. retry L fn retries attempts st = Some (Inl e, st')
       \<and> count_list (journal st') Op_called
           = count_list (journal st) Op_called + (retries - attempts)
       \<and> count_list (journal st') Hook_called
           = count_list (journal st) Hook_called + (retries - attempts - 1)"
proof (induction "retries - attempts" arbitrary: attempts st)
  case 0
  then show ?case by simp
next
  case (Suc k)
  obtain st1 where f: "fn (journal_add Op_called st) = (Inl e, st1)"
      and j: "journal st1 = journal st @ [Op_called]"
    using fails [of "journal_add Op_called st"] by auto
  show ?case
  proof (cases "attempts + 1 \<ge> retries")
    case True
    with Suc.prems have "retries - attempts = 1" by simp
    with True Suc.prems f j show ?thesis
      by (simp add: retry.simps [of L fn retries attempts st])
  next
    case False
    let ?st2 = "journal_add (Slept RETRY_DELAY_MS) (journal_add Retrying
        (journal_add Hook_called (journal_add (Attempt_failed (attempts + 1) e) st1)))"
    from False Suc.prems f conn
    have u: "retry L fn retries attempts st = retry L fn retries (attempts + 1) ?st2"
      by (simp add: retry.simps [of L fn retries attempts st])
    have "k = retries - (attempts + 1)" using Suc.hyps(2) by simp
    moreover have "attempts + 1 < retries" using False by simp
    ultimately obtain st' where
      "retry L fn retries (attempts + 1) ?st2 = Some (Inl e, st')"
      "count_list (journal st') Op_called
         = count_list (journal ?st2) Op_called + (retries - (attempts + 1))"
      "count_list (journal st') Hook_called
         = count_list (journal ?st2) Hook_called + (retries - (attempts + 1) - 1)"
      using Suc.hyps(1) by blast
    with u j False show ?thesis by simp arith
  qed
qed

lemma exec_op_stderr:
  "ssh_execCommand L command cwd (hub s) = (Inr result, w) \<Longrightarrow> stderr result \<noteq> [] \<Longrightarrow>
   exec_op L command cwd s = (Inl (stderr result), s\<lparr>hub := w\<rparr>)"
  by (simp add: exec_op_def truthy_def)

text \<open>
  The two guards without a reconnect check keep the bound: the \<^verbatim>\<open>retry\<close> of the script
  that runs on the hub, and the loop of \<^verbatim>\<open>SSHService.connect\<close>, which raises a new error
  that carries the last message.
\<close>

lemma retry_local_bound:
  assumes fails: "\<And>s. \<exists>s'. fn s = (Inl e, s') \<and> journal s' = journal s"
  shows "attempts < retries \<Longrightarrow>
     \<exists>st'. retry_local fn retries attempts st = (Inl e, st')
       \<and> count_list (journal st') Op_called
           = count_list (journal st) Op_called + (retries - attempts)"
proof (induction "retries - attempts" arbitrary: attempts st)
  case 0
  then show ?case by simp
next
  case (Suc k)
  obtain st1 where f: "fn (journal_add Op_called st) = (Inl e, st1)"
      and j: "journal st1 = journal st @ [Op_called]"
    using fails [of "journal_add Op_called st"] by auto
  show ?case
  proof (cases "attempts + 1 \<ge> retries")
    case True
    with Suc.prems have "retries - attempts = 1" by simp
    with True Suc.prems f j show ?thesis
      by (simp add: retry_local.simps [of fn retries attempts st])
  next
    case False
    let ?st2 = "journal_add (Slept RETRY_DELAY_MS) (journal_add Retrying
        (journal_add (Attempt_failed (attempts + 1) e) st1))"
    from False Suc.prems f
    have u: "retry_local fn retries attempts st = retry_local fn retries (attempts + 1) ?st2"
      by (simp add: retry_local.simps [of fn retries attempts st])
    have "k = retries - (attempts + 1)" using Suc.hyps(2) by simp
    moreover have "attempts + 1 < retries" using False by simp
    ultimately obtain st' where
      "retry_local fn retries (attempts + 1) ?st2 = (Inl e, st')"
      "count_list (journal st') Op_called
         = count_list (journal ?st2) Op_called + (retries - (attempts + 1))"
      using Suc.hyps(1) by blast
    with u j False show ?thesis by simp
  qed
qed

lemma connect_loop_bound:
  assumes fails: "\<And>instance config n. fst (lib_connect L instance config n) = Some message"
  shows "attempts < retries \<Longrightarrow>
     fst (connect_loop L this config key retries attempts s)
       = Inl (Failed_to_connect retries message)
     \<and> count_list (calls (snd (connect_loop L this config key retries attempts s)))
         (Connect_call (ssh (services s this)) config)
       = count_list (calls s) (Connect_call (ssh (services s this)) config)
         + (retries - attempts)"
proof (induction "retries - attempts" arbitrary: attempts s)
  case 0
  then show ?case by simp
next
  case (Suc k)
  obtain n where c: "lib_connect L (ssh (services s this)) config (net s) = (Some message, n)"
    using fails [of "ssh (services s this)" config "net s"]
    by (cases "lib_connect L (ssh (services s this)) config (net s)") simp
  show ?case
  proof (cases "attempts + 1 \<ge> retries")
    case True
    with Suc.prems have "retries - attempts = 1" by simp
    with True Suc.prems c show ?thesis
      by (simp add: connect_loop.simps [of L this config key retries attempts s] Let_def)
  next
    case False
    let ?s2 = "s\<lparr>net := n,
                  calls := (calls s @ [Connect_call (ssh (services s this)) config])
                           @ [Timeout_call 2000]\<rparr>"
    from False Suc.prems c
    have u: "connect_loop L this config key retries attempts s
           = connect_loop L this config key retries (attempts + 1) ?s2"
      by (simp add: connect_loop.simps [of L this config key retries attempts s] Let_def)
    have "k = retries - (attempts + 1)" using Suc.hyps(2) by simp
    moreover have "attempts + 1 < retries" using False by simp
    ultimately have
      "fst (connect_loop L this config key retries (attempts + 1) ?s2)
         = Inl (Failed_to_connect retries message)
       \<and> count_list (calls (snd (connect_loop L this config key retries (attempts + 1) ?s2)))
           (Connect_call (ssh (services ?s2 this)) config)
         = count_list (calls ?s2) (Connect_call (ssh (services ?s2 this)) config)
           + (retries - (attempts + 1))"
      using Suc.hyps(1) by blast
    with u False show ?thesis by simp
  qed
qed

text \<open>
  Claim C4 at the input where the code breaks it. On a connected hub a command that exits
  with code 0 and prints a warning on its standard error is run five times by the
  workstation script's \<^verbatim>\<open>execCommandWithRetries\<close>, which then raises the warning.
\<close>

theorem warning_on_stderr_fails_remote_command:
  "\<exists>st'. execCommandWithRetries warning_hub ''npm i -g pm2'' None start
           = Some (Inl ''npm WARN deprecated uuid@3.4.0'', st')
        \<and> count_list (journal st') Op_called = 5"
proof -
  have "\<exists>st'. retry warning_hub (exec_op warning_hub ''npm i -g pm2'' None) RETRY_LIMIT 0 start
           = Some (Inl ''npm WARN deprecated uuid@3.4.0'', st')
       \<and> count_list (journal st') Op_called
           = count_list (journal start) Op_called + (RETRY_LIMIT - 0)
       \<and> count_list (journal st') Hook_called
           = count_list (journal start) Hook_called + (RETRY_LIMIT - 0 - 1)"
    by (rule retry_bound_while_connected)
       (simp_all add: warning_hub_def exec_op_def truthy_def RETRY_LIMIT_def)
  then show ?thesis
    by (auto simp: execCommandWithRetries_def RETRY_LIMIT_def start_def)
qed

text \<open>
  The same function in the script that runs on the hub returns the standard output of a
  command that exits with code 0, whatever it printed on its standard error.
\<close>

lemma local_exit_code_zero_succeeds:
  assumes "sh (case cwd of None \<Rightarrow> command
                         | Some dir \<Rightarrow> if truthy dir then ''cd '' @ dir @ '' && '' @ command
                                       else command) (hub st) = (result, w)"
    and "exitCode result = Some 0"
  shows "execCommandWithRetries_local sh command cwd st
         = (Inr (Str (po_stdout result)), (journal_add Op_called st)\<lparr>hub := w\<rparr>)"
  using assms
  by (simp add: execCommandWithRetries_local_def exec_op_local_def RETRY_LIMIT_def
      retry_local.simps [of _ 5 0 st] Let_def)

end
